theory Spec2Isabelle
  imports Main "HOL-Library.Word"
begin

unbundle bit_operations_syntax

section \<open>Shared types\<close>

type_synonym uint8_t = "8 word"
type_synonym uint16_t = "16 word"

text \<open>
  A C array is a list of the declared length (the predicates \<open>wf_scancode\<close>,
  \<open>wf_keyboard_data\<close> and \<open>wf_temp\<close> below say so). An access outside the declared
  bound is undefined behaviour in C. Where the index is computed from a counter the
  code itself advances, the store into \<open>temp_scancodes\<close> and the read of \<open>data[i]\<close>
  in the byte loop of the framer, the model checks the bound and returns a \<open>fault\<close>
  carrying the offending index.
\<close>

datatype fault = OutOfBounds nat

subsection \<open>ps2\_protocol.h\<close>

datatype PS2_ProtocolStatus_t = PS2_PROTOCOL_OK | PS2_PROTOCOL_ERROR

definition PS2_MAX_SCANCODE_LENGTH :: nat where
  "PS2_MAX_SCANCODE_LENGTH = 4"

text \<open>\<open>uint8_t data[4]; uint8_t length\<close>. The field \<open>length\<close> is \<open>length_sc\<close>.\<close>

record PS2_ScanCode_t =
  data :: "uint8_t list"
  length_sc :: uint8_t

definition PS2_BREAK_CODE_PREFIX :: uint8_t where
  "PS2_BREAK_CODE_PREFIX = 0xF0"

definition PS2_EXTENDED_CODE_PREFIX :: uint8_t where
  "PS2_EXTENDED_CODE_PREFIX = 0xE0"

text \<open>The bytes a scan code stands for: the first \<open>length\<close> bytes of \<open>data\<close>.\<close>

definition sc_bytes :: "PS2_ScanCode_t \<Rightarrow> uint8_t list" where
  "sc_bytes sc = take (unat (length_sc sc)) (data sc)"

text \<open>The shape of \<open>uint8_t data[PS2_MAX_SCANCODE_LENGTH]\<close>.\<close>

definition wf_scancode :: "PS2_ScanCode_t \<Rightarrow> bool" where
  "wf_scancode sc = (length (data sc) = PS2_MAX_SCANCODE_LENGTH)"

subsection \<open>ps2\_protocol.c\<close>

text \<open>
  A function that takes a \<open>PS2_ScanCode_t *\<close> takes \<open>None\<close> for a null pointer and
  \<open>Some sc\<close> for a pointer to \<open>sc\<close>; it returns its status together with the pointee
  after the call. A store to \<open>data[i]\<close> leaves the other bytes as they were.
\<close>

definition ps2_create_make_code ::
  "PS2_ScanCode_t option \<Rightarrow> uint8_t \<Rightarrow> PS2_ProtocolStatus_t \<times> PS2_ScanCode_t option" where
  "ps2_create_make_code scancode key_code =
     (case scancode of
        None \<Rightarrow> (PS2_PROTOCOL_ERROR, None)
      | Some sc \<Rightarrow>
          (PS2_PROTOCOL_OK, Some (sc\<lparr>data := (data sc)[0 := key_code], length_sc := 1\<rparr>)))"

definition ps2_create_break_code ::
  "PS2_ScanCode_t option \<Rightarrow> uint8_t \<Rightarrow> PS2_ProtocolStatus_t \<times> PS2_ScanCode_t option" where
  "ps2_create_break_code scancode key_code =
     (case scancode of
        None \<Rightarrow> (PS2_PROTOCOL_ERROR, None)
      | Some sc \<Rightarrow>
          (PS2_PROTOCOL_OK,
           Some (sc\<lparr>data := (data sc)[0 := PS2_BREAK_CODE_PREFIX, 1 := key_code],
                    length_sc := 2\<rparr>)))"

definition ps2_create_extended_make_code ::
  "PS2_ScanCode_t option \<Rightarrow> uint8_t \<Rightarrow> PS2_ProtocolStatus_t \<times> PS2_ScanCode_t option" where
  "ps2_create_extended_make_code scancode key_code =
     (case scancode of
        None \<Rightarrow> (PS2_PROTOCOL_ERROR, None)
      | Some sc \<Rightarrow>
          (PS2_PROTOCOL_OK,
           Some (sc\<lparr>data := (data sc)[0 := PS2_EXTENDED_CODE_PREFIX, 1 := key_code],
                    length_sc := 2\<rparr>)))"

definition ps2_create_extended_break_code ::
  "PS2_ScanCode_t option \<Rightarrow> uint8_t \<Rightarrow> PS2_ProtocolStatus_t \<times> PS2_ScanCode_t option" where
  "ps2_create_extended_break_code scancode key_code =
     (case scancode of
        None \<Rightarrow> (PS2_PROTOCOL_ERROR, None)
      | Some sc \<Rightarrow>
          (PS2_PROTOCOL_OK,
           Some (sc\<lparr>data := (data sc)[0 := PS2_EXTENDED_CODE_PREFIX,
                                          1 := PS2_BREAK_CODE_PREFIX, 2 := key_code],
                    length_sc := 3\<rparr>)))"

definition ps2_validate_scancode :: "PS2_ScanCode_t option \<Rightarrow> PS2_ProtocolStatus_t" where
  "ps2_validate_scancode scancode =
     (case scancode of
        None \<Rightarrow> PS2_PROTOCOL_ERROR
      | Some sc \<Rightarrow>
          if length_sc sc = 0 \<or> unat (length_sc sc) > PS2_MAX_SCANCODE_LENGTH
          then PS2_PROTOCOL_ERROR else PS2_PROTOCOL_OK)"

fun copy_loop :: "PS2_ScanCode_t \<Rightarrow> nat list \<Rightarrow> PS2_ScanCode_t \<Rightarrow> PS2_ScanCode_t" where
  "copy_loop src [] dest = dest"
| "copy_loop src (i # rest) dest =
     copy_loop src rest (dest\<lparr>data := (data dest)[i := data src ! i]\<rparr>)"

definition ps2_copy_scancode ::
  "PS2_ScanCode_t option \<Rightarrow> PS2_ScanCode_t option \<Rightarrow>
   PS2_ProtocolStatus_t \<times> PS2_ScanCode_t option" where
  "ps2_copy_scancode dest src =
     (case (dest, src) of
        (Some d, Some s) \<Rightarrow>
          if ps2_validate_scancode src \<noteq> PS2_PROTOCOL_OK then (PS2_PROTOCOL_ERROR, dest)
          else (PS2_PROTOCOL_OK,
                Some (copy_loop s [0..<unat (length_sc s)] (d\<lparr>length_sc := length_sc s\<rparr>)))
      | _ \<Rightarrow> (PS2_PROTOCOL_ERROR, dest))"

section \<open>PS/2 framer (ps2\_init.c)\<close>

datatype PS2_Status_t = PS2_OK | PS2_ERROR | PS2_INIT | PS2_READY | PS2_TRANSMITTING

datatype GPIO_PinState = GPIO_PIN_RESET | GPIO_PIN_SET

datatype ps2_pin = PS2_CLK_Pin | PS2_DATA_Pin

text \<open>
  Bus activity is the trace of calls the framer makes on the GPIO layer and the
  busy-wait primitive, in program order.
\<close>

datatype bus_event = HAL_GPIO_WritePin ps2_pin GPIO_PinState | Delay_us nat

record ps2_state =
  ps2_status :: PS2_Status_t
  bus :: "bus_event list"

definition PS2_BIT_PERIOD_US :: nat where
  "PS2_BIT_PERIOD_US = 83"

definition ps2_delay_us :: "nat \<Rightarrow> ps2_state \<Rightarrow> ps2_state" where
  "ps2_delay_us microseconds st = st\<lparr>bus := bus st @ [Delay_us microseconds]\<rparr>"

definition write_pin :: "ps2_pin \<Rightarrow> GPIO_PinState \<Rightarrow> ps2_state \<Rightarrow> ps2_state" where
  "write_pin pin v st = st\<lparr>bus := bus st @ [HAL_GPIO_WritePin pin v]\<rparr>"

definition ps2_send_bit :: "uint8_t \<Rightarrow> ps2_state \<Rightarrow> ps2_state" where
  "ps2_send_bit bit_value st =
     (let st1 = write_pin PS2_DATA_Pin
                  (if bit_value \<noteq> 0 then GPIO_PIN_SET else GPIO_PIN_RESET) st;
          st2 = write_pin PS2_CLK_Pin GPIO_PIN_RESET st1;
          st3 = ps2_delay_us (PS2_BIT_PERIOD_US div 2) st2;
          st4 = write_pin PS2_CLK_Pin GPIO_PIN_SET st3
      in ps2_delay_us (PS2_BIT_PERIOD_US div 2) st4)"

text \<open>The five bus events of one \<open>ps2_send_bit\<close>.\<close>

definition bit_events :: "uint8_t \<Rightarrow> bus_event list" where
  "bit_events v =
     [HAL_GPIO_WritePin PS2_DATA_Pin (if v \<noteq> 0 then GPIO_PIN_SET else GPIO_PIN_RESET),
      HAL_GPIO_WritePin PS2_CLK_Pin GPIO_PIN_RESET, Delay_us (PS2_BIT_PERIOD_US div 2),
      HAL_GPIO_WritePin PS2_CLK_Pin GPIO_PIN_SET, Delay_us (PS2_BIT_PERIOD_US div 2)]"

text \<open>The parity loop: \<open>parity\<close> starts at 1 and flips for every set bit.\<close>

fun parity_loop :: "uint8_t \<Rightarrow> nat list \<Rightarrow> uint8_t \<Rightarrow> uint8_t" where
  "parity_loop d [] parity = parity"
| "parity_loop d (bit_count # rest) parity =
     parity_loop d rest
       (if d AND push_bit bit_count 1 \<noteq> 0 then parity XOR 1 else parity)"

fun data_bits_loop :: "uint8_t \<Rightarrow> nat list \<Rightarrow> ps2_state \<Rightarrow> ps2_state" where
  "data_bits_loop d [] st = st"
| "data_bits_loop d (bit_count # rest) st =
     data_bits_loop d rest (ps2_send_bit (drop_bit bit_count d AND 1) st)"

definition ps2_send_byte :: "uint8_t \<Rightarrow> ps2_state \<Rightarrow> PS2_Status_t \<times> ps2_state" where
  "ps2_send_byte d st =
     (let parity = parity_loop d [0..<8] 1;
          st1 = ps2_send_bit 0 st;
          st2 = data_bits_loop d [0..<8] st1;
          st3 = ps2_send_bit parity st2;
          st4 = ps2_send_bit 1 st3
      in (PS2_OK, st4))"

text \<open>
  The byte loop of \<open>ps2_send_scancode\<close>. Reading \<open>data[i]\<close> with
  \<open>i \<ge> PS2_MAX_SCANCODE_LENGTH\<close> leaves the array.
\<close>

fun send_bytes_loop ::
  "PS2_ScanCode_t \<Rightarrow> nat list \<Rightarrow> ps2_state \<Rightarrow> fault + (PS2_Status_t \<times> ps2_state)" where
  "send_bytes_loop sc [] st = Inr (PS2_OK, st)"
| "send_bytes_loop sc (i # rest) st =
     (if i < PS2_MAX_SCANCODE_LENGTH then
        (case ps2_send_byte (data sc ! i) st of
           (r, st') \<Rightarrow>
             if r \<noteq> PS2_OK then Inr (PS2_ERROR, st'\<lparr>ps2_status := PS2_ERROR\<rparr>)
             else send_bytes_loop sc rest st')
      else Inl (OutOfBounds i))"

text \<open>The argument is \<open>None\<close> for a null pointer.\<close>

definition ps2_send_scancode ::
  "PS2_ScanCode_t option \<Rightarrow> ps2_state \<Rightarrow> fault + (PS2_Status_t \<times> ps2_state)" where
  "ps2_send_scancode scancode st =
     (case scancode of
        None \<Rightarrow> Inr (PS2_ERROR, st)
      | Some sc \<Rightarrow>
          if ps2_status st \<noteq> PS2_READY then Inr (PS2_ERROR, st)
          else
            (case send_bytes_loop sc [0..<unat (length_sc sc)]
                    (st\<lparr>ps2_status := PS2_TRANSMITTING\<rparr>) of
               Inl f \<Rightarrow> Inl f
             | Inr (r, st') \<Rightarrow>
                 if r \<noteq> PS2_OK then Inr (r, st')
                 else Inr (PS2_OK, st'\<lparr>ps2_status := PS2_READY\<rparr>)))"

text \<open>
  The receiving side of the bus: the data line is sampled at every falling edge of
  the clock line. \<open>ps2_decode clk dat evs\<close> starts from the line levels \<open>clk\<close> and
  \<open>dat\<close> and returns the sampled bits, a set line read as \<open>True\<close>.
\<close>

fun ps2_decode :: "GPIO_PinState \<Rightarrow> GPIO_PinState \<Rightarrow> bus_event list \<Rightarrow> bool list" where
  "ps2_decode clk dat [] = []"
| "ps2_decode clk dat (Delay_us n # evs) = ps2_decode clk dat evs"
| "ps2_decode clk dat (HAL_GPIO_WritePin PS2_DATA_Pin v # evs) = ps2_decode clk v evs"
| "ps2_decode clk dat (HAL_GPIO_WritePin PS2_CLK_Pin v # evs) =
     (if clk = GPIO_PIN_SET \<and> v = GPIO_PIN_RESET
      then (dat = GPIO_PIN_SET) # ps2_decode v dat evs
      else ps2_decode v dat evs)"

definition count_ones :: "bool list \<Rightarrow> nat" where
  "count_ones bs = length (filter (\<lambda>b. b) bs)"

section \<open>Keyboard capture and buffer (keyboard\_handler.h, keyboard\_handler.c)\<close>

datatype KeyboardHandlerStatus_t =
  KEYBOARD_HANDLER_OK | KEYBOARD_HANDLER_ERROR | KEYBOARD_HANDLER_INIT |
  KEYBOARD_HANDLER_READY | KEYBOARD_HANDLER_BUFFER_FULL

datatype KeyboardDataStatus_t = KEYBOARD_NO_DATA | KEYBOARD_DATA_AVAILABLE

definition USB_HID_MAX_KEYS :: nat where
  "USB_HID_MAX_KEYS = 6"

text \<open>\<open>uint8_t modifier; uint8_t reserved; uint8_t keys[6]; uint8_t key_count\<close>.\<close>

record USB_HID_KeyboardData_t =
  modifier :: uint8_t
  reserved :: uint8_t
  keys :: "uint8_t list"
  key_count :: uint8_t

text \<open>
  The shape the C type gives a snapshot and the bound under which the loops over
  \<open>keys[0 .. key_count - 1]\<close> stay inside the array.
\<close>

definition wf_keyboard_data :: "USB_HID_KeyboardData_t \<Rightarrow> bool" where
  "wf_keyboard_data kd =
     (length (keys kd) = USB_HID_MAX_KEYS \<and> unat (key_count kd) \<le> USB_HID_MAX_KEYS)"

text \<open>The all-zero structure a \<open>memset\<close> leaves.\<close>

definition zero_keyboard_data :: USB_HID_KeyboardData_t where
  "zero_keyboard_data =
     \<lparr>modifier = 0, reserved = 0, keys = replicate USB_HID_MAX_KEYS 0, key_count = 0\<rparr>"

subsection \<open>Modifier masks and key codes\<close>

abbreviation (input) USB_HID_MODIFIER_LEFT_CTRL :: uint8_t where "USB_HID_MODIFIER_LEFT_CTRL \<equiv> 0x01"
abbreviation (input) USB_HID_MODIFIER_LEFT_SHIFT :: uint8_t where "USB_HID_MODIFIER_LEFT_SHIFT \<equiv> 0x02"
abbreviation (input) USB_HID_MODIFIER_LEFT_ALT :: uint8_t where "USB_HID_MODIFIER_LEFT_ALT \<equiv> 0x04"
abbreviation (input) USB_HID_MODIFIER_LEFT_GUI :: uint8_t where "USB_HID_MODIFIER_LEFT_GUI \<equiv> 0x08"
abbreviation (input) USB_HID_MODIFIER_RIGHT_CTRL :: uint8_t where "USB_HID_MODIFIER_RIGHT_CTRL \<equiv> 0x10"
abbreviation (input) USB_HID_MODIFIER_RIGHT_SHIFT :: uint8_t where "USB_HID_MODIFIER_RIGHT_SHIFT \<equiv> 0x20"
abbreviation (input) USB_HID_MODIFIER_RIGHT_ALT :: uint8_t where "USB_HID_MODIFIER_RIGHT_ALT \<equiv> 0x40"
abbreviation (input) USB_HID_MODIFIER_RIGHT_GUI :: uint8_t where "USB_HID_MODIFIER_RIGHT_GUI \<equiv> 0x80"

abbreviation (input) USB_HID_KEY_A :: uint8_t where "USB_HID_KEY_A \<equiv> 0x04"
abbreviation (input) USB_HID_KEY_B :: uint8_t where "USB_HID_KEY_B \<equiv> 0x05"
abbreviation (input) USB_HID_KEY_C :: uint8_t where "USB_HID_KEY_C \<equiv> 0x06"
abbreviation (input) USB_HID_KEY_D :: uint8_t where "USB_HID_KEY_D \<equiv> 0x07"
abbreviation (input) USB_HID_KEY_E :: uint8_t where "USB_HID_KEY_E \<equiv> 0x08"
abbreviation (input) USB_HID_KEY_F :: uint8_t where "USB_HID_KEY_F \<equiv> 0x09"
abbreviation (input) USB_HID_KEY_G :: uint8_t where "USB_HID_KEY_G \<equiv> 0x0A"
abbreviation (input) USB_HID_KEY_H :: uint8_t where "USB_HID_KEY_H \<equiv> 0x0B"
abbreviation (input) USB_HID_KEY_I :: uint8_t where "USB_HID_KEY_I \<equiv> 0x0C"
abbreviation (input) USB_HID_KEY_J :: uint8_t where "USB_HID_KEY_J \<equiv> 0x0D"
abbreviation (input) USB_HID_KEY_K :: uint8_t where "USB_HID_KEY_K \<equiv> 0x0E"
abbreviation (input) USB_HID_KEY_L :: uint8_t where "USB_HID_KEY_L \<equiv> 0x0F"
abbreviation (input) USB_HID_KEY_M :: uint8_t where "USB_HID_KEY_M \<equiv> 0x10"
abbreviation (input) USB_HID_KEY_N :: uint8_t where "USB_HID_KEY_N \<equiv> 0x11"
abbreviation (input) USB_HID_KEY_O :: uint8_t where "USB_HID_KEY_O \<equiv> 0x12"
abbreviation (input) USB_HID_KEY_P :: uint8_t where "USB_HID_KEY_P \<equiv> 0x13"
abbreviation (input) USB_HID_KEY_Q :: uint8_t where "USB_HID_KEY_Q \<equiv> 0x14"
abbreviation (input) USB_HID_KEY_R :: uint8_t where "USB_HID_KEY_R \<equiv> 0x15"
abbreviation (input) USB_HID_KEY_S :: uint8_t where "USB_HID_KEY_S \<equiv> 0x16"
abbreviation (input) USB_HID_KEY_T :: uint8_t where "USB_HID_KEY_T \<equiv> 0x17"
abbreviation (input) USB_HID_KEY_U :: uint8_t where "USB_HID_KEY_U \<equiv> 0x18"
abbreviation (input) USB_HID_KEY_V :: uint8_t where "USB_HID_KEY_V \<equiv> 0x19"
abbreviation (input) USB_HID_KEY_W :: uint8_t where "USB_HID_KEY_W \<equiv> 0x1A"
abbreviation (input) USB_HID_KEY_X :: uint8_t where "USB_HID_KEY_X \<equiv> 0x1B"
abbreviation (input) USB_HID_KEY_Y :: uint8_t where "USB_HID_KEY_Y \<equiv> 0x1C"
abbreviation (input) USB_HID_KEY_Z :: uint8_t where "USB_HID_KEY_Z \<equiv> 0x1D"
abbreviation (input) USB_HID_KEY_1 :: uint8_t where "USB_HID_KEY_1 \<equiv> 0x1E"
abbreviation (input) USB_HID_KEY_2 :: uint8_t where "USB_HID_KEY_2 \<equiv> 0x1F"
abbreviation (input) USB_HID_KEY_3 :: uint8_t where "USB_HID_KEY_3 \<equiv> 0x20"
abbreviation (input) USB_HID_KEY_4 :: uint8_t where "USB_HID_KEY_4 \<equiv> 0x21"
abbreviation (input) USB_HID_KEY_5 :: uint8_t where "USB_HID_KEY_5 \<equiv> 0x22"
abbreviation (input) USB_HID_KEY_6 :: uint8_t where "USB_HID_KEY_6 \<equiv> 0x23"
abbreviation (input) USB_HID_KEY_7 :: uint8_t where "USB_HID_KEY_7 \<equiv> 0x24"
abbreviation (input) USB_HID_KEY_8 :: uint8_t where "USB_HID_KEY_8 \<equiv> 0x25"
abbreviation (input) USB_HID_KEY_9 :: uint8_t where "USB_HID_KEY_9 \<equiv> 0x26"
abbreviation (input) USB_HID_KEY_0 :: uint8_t where "USB_HID_KEY_0 \<equiv> 0x27"
abbreviation (input) USB_HID_KEY_ENTER :: uint8_t where "USB_HID_KEY_ENTER \<equiv> 0x28"
abbreviation (input) USB_HID_KEY_ESCAPE :: uint8_t where "USB_HID_KEY_ESCAPE \<equiv> 0x29"
abbreviation (input) USB_HID_KEY_BACKSPACE :: uint8_t where "USB_HID_KEY_BACKSPACE \<equiv> 0x2A"
abbreviation (input) USB_HID_KEY_TAB :: uint8_t where "USB_HID_KEY_TAB \<equiv> 0x2B"
abbreviation (input) USB_HID_KEY_SPACE :: uint8_t where "USB_HID_KEY_SPACE \<equiv> 0x2C"
abbreviation (input) USB_HID_KEY_F1 :: uint8_t where "USB_HID_KEY_F1 \<equiv> 0x3A"
abbreviation (input) USB_HID_KEY_F2 :: uint8_t where "USB_HID_KEY_F2 \<equiv> 0x3B"
abbreviation (input) USB_HID_KEY_F3 :: uint8_t where "USB_HID_KEY_F3 \<equiv> 0x3C"
abbreviation (input) USB_HID_KEY_F4 :: uint8_t where "USB_HID_KEY_F4 \<equiv> 0x3D"
abbreviation (input) USB_HID_KEY_F5 :: uint8_t where "USB_HID_KEY_F5 \<equiv> 0x3E"
abbreviation (input) USB_HID_KEY_F6 :: uint8_t where "USB_HID_KEY_F6 \<equiv> 0x3F"
abbreviation (input) USB_HID_KEY_F7 :: uint8_t where "USB_HID_KEY_F7 \<equiv> 0x40"
abbreviation (input) USB_HID_KEY_F8 :: uint8_t where "USB_HID_KEY_F8 \<equiv> 0x41"
abbreviation (input) USB_HID_KEY_F9 :: uint8_t where "USB_HID_KEY_F9 \<equiv> 0x42"
abbreviation (input) USB_HID_KEY_F10 :: uint8_t where "USB_HID_KEY_F10 \<equiv> 0x43"
abbreviation (input) USB_HID_KEY_F11 :: uint8_t where "USB_HID_KEY_F11 \<equiv> 0x44"
abbreviation (input) USB_HID_KEY_F12 :: uint8_t where "USB_HID_KEY_F12 \<equiv> 0x45"
abbreviation (input) USB_HID_KEY_INSERT :: uint8_t where "USB_HID_KEY_INSERT \<equiv> 0x49"
abbreviation (input) USB_HID_KEY_HOME :: uint8_t where "USB_HID_KEY_HOME \<equiv> 0x4A"
abbreviation (input) USB_HID_KEY_PAGE_UP :: uint8_t where "USB_HID_KEY_PAGE_UP \<equiv> 0x4B"
abbreviation (input) USB_HID_KEY_DELETE :: uint8_t where "USB_HID_KEY_DELETE \<equiv> 0x4C"
abbreviation (input) USB_HID_KEY_END :: uint8_t where "USB_HID_KEY_END \<equiv> 0x4D"
abbreviation (input) USB_HID_KEY_PAGE_DOWN :: uint8_t where "USB_HID_KEY_PAGE_DOWN \<equiv> 0x4E"
abbreviation (input) USB_HID_KEY_RIGHT_ARROW :: uint8_t where "USB_HID_KEY_RIGHT_ARROW \<equiv> 0x4F"
abbreviation (input) USB_HID_KEY_LEFT_ARROW :: uint8_t where "USB_HID_KEY_LEFT_ARROW \<equiv> 0x50"
abbreviation (input) USB_HID_KEY_DOWN_ARROW :: uint8_t where "USB_HID_KEY_DOWN_ARROW \<equiv> 0x51"
abbreviation (input) USB_HID_KEY_UP_ARROW :: uint8_t where "USB_HID_KEY_UP_ARROW \<equiv> 0x52"

subsection \<open>The handler\<close>

definition KEYBOARD_REPORT_SIZE :: nat where
  "KEYBOARD_REPORT_SIZE = 8"

definition KEYBOARD_MODIFIER_OFFSET :: nat where
  "KEYBOARD_MODIFIER_OFFSET = 0"

definition KEYBOARD_KEY_OFFSET :: nat where
  "KEYBOARD_KEY_OFFSET = 2"

definition KEYBOARD_MAX_KEYS :: nat where
  "KEYBOARD_MAX_KEYS = 6"

definition KEYBOARD_BUFFER_SIZE :: nat where
  "KEYBOARD_BUFFER_SIZE = 16"

record keyboard_handler_state =
  keyboard_buffer :: "USB_HID_KeyboardData_t list"
  buffer_head :: uint8_t
  buffer_tail :: uint8_t
  buffer_count :: uint8_t
  last_keyboard_state :: USB_HID_KeyboardData_t
  handler_status :: KeyboardHandlerStatus_t

definition keyboard_handler_init ::
  "keyboard_handler_state \<Rightarrow> KeyboardHandlerStatus_t \<times> keyboard_handler_state" where
  "keyboard_handler_init st =
     (KEYBOARD_HANDLER_OK,
      st\<lparr>buffer_head := 0, buffer_tail := 0, buffer_count := 0,
         last_keyboard_state := zero_keyboard_data,
         handler_status := KEYBOARD_HANDLER_READY\<rparr>)"

fun parse_loop ::
  "uint8_t list \<Rightarrow> nat list \<Rightarrow> USB_HID_KeyboardData_t \<Rightarrow> USB_HID_KeyboardData_t" where
  "parse_loop report [] keyboard_data = keyboard_data"
| "parse_loop report (i # rest) keyboard_data =
     (let key_code = report ! (KEYBOARD_KEY_OFFSET + i)
      in parse_loop report rest
           (if key_code \<noteq> 0 \<and> key_code \<noteq> 0x01
            then keyboard_data
                   \<lparr>keys := (keys keyboard_data)[unat (key_count keyboard_data) := key_code],
                    key_count := key_count keyboard_data + 1\<rparr>
            else keyboard_data))"

definition keyboard_parse_hid_report :: "uint8_t list \<Rightarrow> USB_HID_KeyboardData_t" where
  "keyboard_parse_hid_report report =
     parse_loop report [0..<KEYBOARD_MAX_KEYS]
       (zero_keyboard_data\<lparr>modifier := report ! KEYBOARD_MODIFIER_OFFSET, key_count := 0\<rparr>)"

definition keyboard_buffer_is_full :: "keyboard_handler_state \<Rightarrow> bool" where
  "keyboard_buffer_is_full st = (unat (buffer_count st) \<ge> KEYBOARD_BUFFER_SIZE)"

definition keyboard_buffer_is_empty :: "keyboard_handler_state \<Rightarrow> bool" where
  "keyboard_buffer_is_empty st = (buffer_count st = 0)"

text \<open>
  \<open>(buffer_head + 1) % KEYBOARD_BUFFER_SIZE\<close> is computed in \<open>int\<close> and stored back
  into eight bits; as 16 divides 256, the eight-bit sum has the same remainder modulo
  16. The indices \<open>buffer_head\<close> and \<open>buffer_tail\<close> are below 16 in every state the
  handler reaches (\<open>handler_inv\<close> below), so the slot accessed is inside the array.
\<close>

definition keyboard_buffer_put ::
  "USB_HID_KeyboardData_t \<Rightarrow> keyboard_handler_state \<Rightarrow> keyboard_handler_state" where
  "keyboard_buffer_put d st =
     (if \<not> keyboard_buffer_is_full st
      then st\<lparr>keyboard_buffer := (keyboard_buffer st)[unat (buffer_head st) := d],
              buffer_head := (buffer_head st + 1) mod 16,
              buffer_count := buffer_count st + 1\<rparr>
      else st)"

text \<open>The first component is the structure \<open>data\<close> points to after the call.\<close>

definition keyboard_buffer_get ::
  "USB_HID_KeyboardData_t \<Rightarrow> keyboard_handler_state \<Rightarrow>
   USB_HID_KeyboardData_t \<times> keyboard_handler_state" where
  "keyboard_buffer_get d st =
     (if \<not> keyboard_buffer_is_empty st
      then (keyboard_buffer st ! unat (buffer_tail st),
            st\<lparr>buffer_tail := (buffer_tail st + 1) mod 16,
               buffer_count := buffer_count st - 1\<rparr>)
      else (d, st))"

text \<open>
  \<open>report\<close> is \<open>None\<close> for a null pointer. \<open>memcmp\<close> over the whole structure is
  equality of the records.
\<close>

definition keyboard_handler_process_report ::
  "uint8_t list option \<Rightarrow> uint16_t \<Rightarrow> keyboard_handler_state \<Rightarrow>
   KeyboardHandlerStatus_t \<times> keyboard_handler_state" where
  "keyboard_handler_process_report report report_size st =
     (case report of
        None \<Rightarrow> (KEYBOARD_HANDLER_ERROR, st)
      | Some r \<Rightarrow>
          if unat report_size \<noteq> KEYBOARD_REPORT_SIZE then (KEYBOARD_HANDLER_ERROR, st)
          else
            (let keyboard_data = keyboard_parse_hid_report r
             in if keyboard_data \<noteq> last_keyboard_state st then
                  if \<not> keyboard_buffer_is_full st
                  then (KEYBOARD_HANDLER_OK,
                        (keyboard_buffer_put keyboard_data st)
                          \<lparr>last_keyboard_state := keyboard_data\<rparr>)
                  else (KEYBOARD_HANDLER_BUFFER_FULL, st)
                else (KEYBOARD_HANDLER_OK, st)))"

text \<open>The second component is the structure \<open>keyboard_data\<close> points to after the call.\<close>

definition keyboard_handler_get_data ::
  "USB_HID_KeyboardData_t option \<Rightarrow> keyboard_handler_state \<Rightarrow>
   KeyboardDataStatus_t \<times> USB_HID_KeyboardData_t option \<times> keyboard_handler_state" where
  "keyboard_handler_get_data keyboard_data st =
     (case keyboard_data of
        None \<Rightarrow> (KEYBOARD_NO_DATA, None, st)
      | Some d \<Rightarrow>
          if keyboard_buffer_is_empty st then (KEYBOARD_NO_DATA, Some d, st)
          else (case keyboard_buffer_get d st of
                  (d', st') \<Rightarrow> (KEYBOARD_DATA_AVAILABLE, Some d', st')))"

definition keyboard_handler_clear_buffer :: "keyboard_handler_state \<Rightarrow> keyboard_handler_state" where
  "keyboard_handler_clear_buffer st = st\<lparr>buffer_head := 0, buffer_tail := 0, buffer_count := 0\<rparr>"

section \<open>Scan-code translator (scancode\_translator.h, scancode\_translator.c)\<close>

datatype TranslatorStatus_t =
  TRANSLATOR_OK | TRANSLATOR_ERROR | TRANSLATOR_INIT | TRANSLATOR_READY

record KeyMapping_t =
  usb_key :: uint8_t
  ps2_key :: uint8_t
  is_extended :: uint8_t

abbreviation (input) KM :: "uint8_t \<Rightarrow> uint8_t \<Rightarrow> uint8_t \<Rightarrow> KeyMapping_t" where
  "KM u p e \<equiv> \<lparr>usb_key = u, ps2_key = p, is_extended = e\<rparr>"

definition MAX_TRANSLATION_BUFFER :: nat where
  "MAX_TRANSLATION_BUFFER = 8"

record translator_state =
  translator_status :: TranslatorStatus_t
  last_usb_state :: USB_HID_KeyboardData_t

text \<open>The table in source order, the end marker last.\<close>

definition key_mapping_table :: "KeyMapping_t list" where
  "key_mapping_table =
     [
      KM USB_HID_KEY_A 0x1C 0, KM USB_HID_KEY_B 0x32 0, KM USB_HID_KEY_C 0x21 0,
      KM USB_HID_KEY_D 0x23 0, KM USB_HID_KEY_E 0x24 0, KM USB_HID_KEY_F 0x2B 0,
      KM USB_HID_KEY_G 0x34 0, KM USB_HID_KEY_H 0x33 0, KM USB_HID_KEY_I 0x43 0,
      KM USB_HID_KEY_J 0x3B 0, KM USB_HID_KEY_K 0x42 0, KM USB_HID_KEY_L 0x4B 0,
      KM USB_HID_KEY_M 0x3A 0, KM USB_HID_KEY_N 0x31 0, KM USB_HID_KEY_O 0x44 0,
      KM USB_HID_KEY_P 0x4D 0, KM USB_HID_KEY_Q 0x15 0, KM USB_HID_KEY_R 0x2D 0,
      KM USB_HID_KEY_S 0x1B 0, KM USB_HID_KEY_T 0x2C 0, KM USB_HID_KEY_U 0x3C 0,
      KM USB_HID_KEY_V 0x2A 0, KM USB_HID_KEY_W 0x1D 0, KM USB_HID_KEY_X 0x22 0,
      KM USB_HID_KEY_Y 0x35 0, KM USB_HID_KEY_Z 0x1A 0, KM USB_HID_KEY_1 0x16 0,
      KM USB_HID_KEY_2 0x1E 0, KM USB_HID_KEY_3 0x26 0, KM USB_HID_KEY_4 0x25 0,
      KM USB_HID_KEY_5 0x2E 0, KM USB_HID_KEY_6 0x36 0, KM USB_HID_KEY_7 0x3D 0,
      KM USB_HID_KEY_8 0x3E 0, KM USB_HID_KEY_9 0x46 0, KM USB_HID_KEY_0 0x45 0,
      KM USB_HID_KEY_ENTER 0x5A 0, KM USB_HID_KEY_ESCAPE 0x76 0, KM USB_HID_KEY_BACKSPACE 0x66 0,
      KM USB_HID_KEY_TAB 0x0D 0, KM USB_HID_KEY_SPACE 0x29 0, KM USB_HID_KEY_F1 0x05 0,
      KM USB_HID_KEY_F2 0x06 0, KM USB_HID_KEY_F3 0x04 0, KM USB_HID_KEY_F4 0x0C 0,
      KM USB_HID_KEY_F5 0x03 0, KM USB_HID_KEY_F6 0x0B 0, KM USB_HID_KEY_F7 0x83 0,
      KM USB_HID_KEY_F8 0x0A 0, KM USB_HID_KEY_F9 0x01 0, KM USB_HID_KEY_F10 0x09 0,
      KM USB_HID_KEY_F11 0x78 0, KM USB_HID_KEY_F12 0x07 0, KM USB_HID_KEY_INSERT 0x70 1,
      KM USB_HID_KEY_HOME 0x6C 1, KM USB_HID_KEY_PAGE_UP 0x7D 1, KM USB_HID_KEY_DELETE 0x71 1,
      KM USB_HID_KEY_END 0x69 1, KM USB_HID_KEY_PAGE_DOWN 0x7A 1, KM USB_HID_KEY_RIGHT_ARROW 0x74 1,
      KM USB_HID_KEY_LEFT_ARROW 0x6B 1, KM USB_HID_KEY_DOWN_ARROW 0x72 1, KM USB_HID_KEY_UP_ARROW 0x75 1,
      KM 0x00 0x00 0
     ]"

definition scancode_translator_init ::
  "translator_state \<Rightarrow> TranslatorStatus_t \<times> translator_state" where
  "scancode_translator_init st =
     (TRANSLATOR_OK,
      st\<lparr>last_usb_state := zero_keyboard_data, translator_status := TRANSLATOR_READY\<rparr>)"

definition scancode_translator_reset :: "translator_state \<Rightarrow> translator_state" where
  "scancode_translator_reset st =
     st\<lparr>last_usb_state := zero_keyboard_data, translator_status := TRANSLATOR_READY\<rparr>"

text \<open>
  The search loop stops at the first entry whose \<open>usb_key\<close> is 0. The result is
  \<open>None\<close> for the return value 0 and \<open>Some (ps2_key, is_extended)\<close> for 1.
\<close>

fun find_loop :: "KeyMapping_t list \<Rightarrow> uint8_t \<Rightarrow> (uint8_t \<times> uint8_t) option" where
  "find_loop [] k = None"
| "find_loop (e # es) k =
     (if usb_key e = 0 then None
      else if usb_key e = k then Some (ps2_key e, is_extended e)
      else find_loop es k)"

definition find_ps2_scancode :: "uint8_t \<Rightarrow> (uint8_t \<times> uint8_t) option" where
  "find_ps2_scancode k = find_loop key_mapping_table k"

definition is_key_in_array :: "uint8_t \<Rightarrow> uint8_t list \<Rightarrow> uint8_t \<Rightarrow> bool" where
  "is_key_in_array key array array_size =
     list_ex (\<lambda>i. array ! i = key) [0..<unat array_size]"

text \<open>
  The locals of one call of \<open>scancode_translator_usb_to_ps2\<close>: the array
  \<open>temp_scancodes[MAX_TRANSLATION_BUFFER]\<close> and \<open>scancode_count\<close>. The two helpers
  get a pointer \<open>scancodes\<close> into the array, modelled by its offset \<open>base\<close>, and a
  pointer to \<open>scancode_count\<close>.
\<close>

record frame =
  temp_scancodes :: "PS2_ScanCode_t list"
  scancode_count :: uint8_t

type_synonym creator =
  "PS2_ScanCode_t option \<Rightarrow> PS2_ProtocolStatus_t \<times> PS2_ScanCode_t option"

text \<open>
  \<open>create(&scancodes[*count], ...)\<close>: the slot written is
  \<open>temp_scancodes[base + *count]\<close>; the status of \<open>create\<close> is ignored.
\<close>

definition store_scancode :: "nat \<Rightarrow> creator \<Rightarrow> frame \<Rightarrow> fault + frame" where
  "store_scancode base create fr =
     (let idx = base + unat (scancode_count fr)
      in if idx < MAX_TRANSLATION_BUFFER then
           (case snd (create (Some (temp_scancodes fr ! idx))) of
              Some sc \<Rightarrow> Inr (fr\<lparr>temp_scancodes := (temp_scancodes fr)[idx := sc]\<rparr>)
            | None \<Rightarrow> Inr fr)
         else Inl (OutOfBounds idx))"

definition seq :: "fault + 'a \<Rightarrow> ('a \<Rightarrow> fault + 'b) \<Rightarrow> fault + 'b" where
  "seq r f = (case r of Inl e \<Rightarrow> Inl e | Inr x \<Rightarrow> f x)"

text \<open>One \<open>if (modifier_changes & bitmask) { ... (*count)++; }\<close> block.\<close>

definition modifier_block ::
  "uint8_t \<Rightarrow> uint8_t \<Rightarrow> uint8_t \<Rightarrow> creator \<Rightarrow> creator \<Rightarrow> nat \<Rightarrow> frame \<Rightarrow> fault + frame" where
  "modifier_block modifier_changes new_modifier bitmask mk brk base fr =
     (if modifier_changes AND bitmask \<noteq> 0 then
        seq (store_scancode base (if new_modifier AND bitmask \<noteq> 0 then mk else brk) fr)
          (\<lambda>fr'. Inr (fr'\<lparr>scancode_count := scancode_count fr' + 1\<rparr>))
      else Inr fr)"

definition translate_modifier_keys ::
  "uint8_t \<Rightarrow> uint8_t \<Rightarrow> nat \<Rightarrow> frame \<Rightarrow> fault + (TranslatorStatus_t \<times> frame)" where
  "translate_modifier_keys old_modifier new_modifier base fr =
     (let modifier_changes = old_modifier XOR new_modifier;
          initial_count = scancode_count fr;
          block = modifier_block modifier_changes new_modifier
      in seq (block USB_HID_MODIFIER_LEFT_CTRL
                (\<lambda>p. ps2_create_make_code p 0x14) (\<lambda>p. ps2_create_break_code p 0x14)
                base fr) (\<lambda>fr.
         seq (block USB_HID_MODIFIER_LEFT_SHIFT
                (\<lambda>p. ps2_create_make_code p 0x12) (\<lambda>p. ps2_create_break_code p 0x12)
                base fr) (\<lambda>fr.
         seq (block USB_HID_MODIFIER_LEFT_ALT
                (\<lambda>p. ps2_create_make_code p 0x11) (\<lambda>p. ps2_create_break_code p 0x11)
                base fr) (\<lambda>fr.
         seq (block USB_HID_MODIFIER_RIGHT_SHIFT
                (\<lambda>p. ps2_create_make_code p 0x59) (\<lambda>p. ps2_create_break_code p 0x59)
                base fr) (\<lambda>fr.
         seq (block USB_HID_MODIFIER_RIGHT_CTRL
                (\<lambda>p. ps2_create_extended_make_code p 0x14)
                (\<lambda>p. ps2_create_extended_break_code p 0x14)
                base fr) (\<lambda>fr.
         seq (block USB_HID_MODIFIER_RIGHT_ALT
                (\<lambda>p. ps2_create_extended_make_code p 0x11)
                (\<lambda>p. ps2_create_extended_break_code p 0x11)
                base fr) (\<lambda>fr.
         if unat (scancode_count fr) > MAX_TRANSLATION_BUFFER
         then Inr (TRANSLATOR_ERROR, fr\<lparr>scancode_count := initial_count\<rparr>)
         else Inr (TRANSLATOR_OK, fr))))))))"

text \<open>
  The two loops of \<open>translate_regular_keys\<close>, over the indices \<open>i\<close>; \<open>pk\<close> and
  \<open>ext\<close> are the locals \<open>ps2_key\<close> and \<open>is_extended\<close>. A result \<open>TRANSLATOR_ERROR\<close>
  is the early \<open>return\<close>.
\<close>

fun release_loop ::
  "USB_HID_KeyboardData_t \<Rightarrow> USB_HID_KeyboardData_t \<Rightarrow> nat \<Rightarrow> uint8_t \<Rightarrow> nat list \<Rightarrow>
   frame \<Rightarrow> fault + (TranslatorStatus_t \<times> frame)" where
  "release_loop old_state new_state base initial_count [] fr = Inr (TRANSLATOR_OK, fr)"
| "release_loop old_state new_state base initial_count (i # rest) fr =
     (if \<not> is_key_in_array (keys old_state ! i) (keys new_state) (key_count new_state) then
        (case find_ps2_scancode (keys old_state ! i) of
           Some (pk, ext) \<Rightarrow>
             seq (store_scancode base
                    (if ext \<noteq> 0
                     then (\<lambda>p. ps2_create_extended_break_code p pk)
                     else (\<lambda>p. ps2_create_break_code p pk)) fr) (\<lambda>fr1.
               (let fr2 = fr1\<lparr>scancode_count := scancode_count fr1 + 1\<rparr>
                in if unat (scancode_count fr2) \<ge> MAX_TRANSLATION_BUFFER
                   then Inr (TRANSLATOR_ERROR, fr2\<lparr>scancode_count := initial_count\<rparr>)
                   else release_loop old_state new_state base initial_count rest fr2))
         | None \<Rightarrow> release_loop old_state new_state base initial_count rest fr)
      else release_loop old_state new_state base initial_count rest fr)"

fun press_loop ::
  "USB_HID_KeyboardData_t \<Rightarrow> USB_HID_KeyboardData_t \<Rightarrow> nat \<Rightarrow> uint8_t \<Rightarrow> nat list \<Rightarrow>
   frame \<Rightarrow> fault + (TranslatorStatus_t \<times> frame)" where
  "press_loop old_state new_state base initial_count [] fr = Inr (TRANSLATOR_OK, fr)"
| "press_loop old_state new_state base initial_count (i # rest) fr =
     (if \<not> is_key_in_array (keys new_state ! i) (keys old_state) (key_count old_state) then
        (case find_ps2_scancode (keys new_state ! i) of
           Some (pk, ext) \<Rightarrow>
             seq (store_scancode base
                    (if ext \<noteq> 0
                     then (\<lambda>p. ps2_create_extended_make_code p pk)
                     else (\<lambda>p. ps2_create_make_code p pk)) fr) (\<lambda>fr1.
               (let fr2 = fr1\<lparr>scancode_count := scancode_count fr1 + 1\<rparr>
                in if unat (scancode_count fr2) \<ge> MAX_TRANSLATION_BUFFER
                   then Inr (TRANSLATOR_ERROR, fr2\<lparr>scancode_count := initial_count\<rparr>)
                   else press_loop old_state new_state base initial_count rest fr2))
         | None \<Rightarrow> press_loop old_state new_state base initial_count rest fr)
      else press_loop old_state new_state base initial_count rest fr)"

definition translate_regular_keys ::
  "USB_HID_KeyboardData_t \<Rightarrow> USB_HID_KeyboardData_t \<Rightarrow> nat \<Rightarrow> frame \<Rightarrow>
   fault + (TranslatorStatus_t \<times> frame)" where
  "translate_regular_keys old_state new_state base fr =
     (let initial_count = scancode_count fr
      in seq (release_loop old_state new_state base initial_count
                [0..<unat (key_count old_state)] fr) (\<lambda>(r, fr1).
           if r \<noteq> TRANSLATOR_OK then Inr (r, fr1)
           else press_loop old_state new_state base initial_count
                  [0..<unat (key_count new_state)] fr1))"

text \<open>
  \<open>temp0\<close> is what the uninitialised array \<open>temp_scancodes\<close> holds on entry.
  \<open>usb_data\<close> and \<open>ps2_scancode\<close> are \<open>None\<close> for null pointers; the result holds the
  status, the structure \<open>ps2_scancode\<close> points to after the call, and the new
  translator state. The regular keys get the pointer \<open>&temp_scancodes[scancode_count]\<close>
  and the pointer to the same \<open>scancode_count\<close>.
\<close>

definition scancode_translator_usb_to_ps2 ::
  "PS2_ScanCode_t list \<Rightarrow> USB_HID_KeyboardData_t option \<Rightarrow> PS2_ScanCode_t option \<Rightarrow>
   translator_state \<Rightarrow>
   fault + (TranslatorStatus_t \<times> PS2_ScanCode_t option \<times> translator_state)" where
  "scancode_translator_usb_to_ps2 temp0 usb_data ps2_scancode st =
     (case (usb_data, ps2_scancode) of
        (Some ud, Some out) \<Rightarrow>
          if translator_status st \<noteq> TRANSLATOR_READY
          then Inr (TRANSLATOR_ERROR, ps2_scancode, st)
          else
            seq (translate_modifier_keys (modifier (last_usb_state st)) (modifier ud) 0
                   \<lparr>temp_scancodes = temp0, scancode_count = 0\<rparr>) (\<lambda>(r1, fr1).
              if r1 \<noteq> TRANSLATOR_OK then Inr (TRANSLATOR_ERROR, ps2_scancode, st)
              else
                seq (translate_regular_keys (last_usb_state st) ud
                       (unat (scancode_count fr1)) fr1) (\<lambda>(r2, fr2).
                  if r2 \<noteq> TRANSLATOR_OK then Inr (TRANSLATOR_ERROR, ps2_scancode, st)
                  else
                    Inr (TRANSLATOR_OK,
                         (if scancode_count fr2 > 0
                          then snd (ps2_copy_scancode ps2_scancode
                                      (Some (temp_scancodes fr2 ! 0)))
                          else Some (out\<lparr>length_sc := 0\<rparr>)),
                         st\<lparr>last_usb_state := ud\<rparr>)))
      | _ \<Rightarrow> Inr (TRANSLATOR_ERROR, ps2_scancode, st))"

text \<open>The shape of \<open>PS2_ScanCode_t temp_scancodes[MAX_TRANSLATION_BUFFER]\<close>.\<close>

definition wf_temp :: "PS2_ScanCode_t list \<Rightarrow> bool" where
  "wf_temp temp0 =
     (length temp0 = MAX_TRANSLATION_BUFFER \<and> list_all wf_scancode temp0)"

section \<open>The event count of the specification\<close>

text \<open>
  The number of discrete events the specification lets a diff generate, in its own
  words: one for each changed modifier bit among the six the translator handles, one
  for each key of \<open>last\<close> absent from \<open>current\<close> that the key map knows, and one for
  each key of \<open>current\<close> absent from \<open>last\<close> that the key map knows.
\<close>

definition pressed_keys :: "USB_HID_KeyboardData_t \<Rightarrow> uint8_t list" where
  "pressed_keys kd = take (unat (key_count kd)) (keys kd)"

definition handled_modifiers :: "uint8_t list" where
  "handled_modifiers =
     [USB_HID_MODIFIER_LEFT_CTRL, USB_HID_MODIFIER_LEFT_SHIFT, USB_HID_MODIFIER_LEFT_ALT,
      USB_HID_MODIFIER_RIGHT_SHIFT, USB_HID_MODIFIER_RIGHT_CTRL, USB_HID_MODIFIER_RIGHT_ALT]"

definition spec_event_count :: "USB_HID_KeyboardData_t \<Rightarrow> USB_HID_KeyboardData_t \<Rightarrow> nat" where
  "spec_event_count last_state current =
     length (filter (\<lambda>m. (modifier last_state XOR modifier current) AND m \<noteq> 0)
               handled_modifiers) +
     length (filter (\<lambda>k. k \<notin> set (pressed_keys current) \<and> find_ps2_scancode k \<noteq> None)
               (pressed_keys last_state)) +
     length (filter (\<lambda>k. k \<notin> set (pressed_keys last_state) \<and> find_ps2_scancode k \<noteq> None)
               (pressed_keys current))"

section \<open>The queue as a list, and runs of the handler\<close>

text \<open>
  \<open>handler_inv\<close> is the shape of the ring buffer: sixteen slots, at most sixteen of
  them in use, the tail inside the array and the head \<open>count\<close> slots after the tail,
  modulo sixteen.
  \<open>queue_contents\<close> lists the queued snapshots from the oldest to the newest.
  \<open>process_reports\<close> feeds reports to \<open>keyboard_handler_process_report\<close> one after
  the other and \<open>get_data_n\<close> calls \<open>keyboard_handler_get_data\<close> \<open>n\<close> times on the same
  caller structure; both collect what the calls return.
\<close>

definition handler_inv :: "keyboard_handler_state \<Rightarrow> bool" where
  "handler_inv st =
     (length (keyboard_buffer st) = KEYBOARD_BUFFER_SIZE \<and>
      unat (buffer_count st) \<le> KEYBOARD_BUFFER_SIZE \<and>
      unat (buffer_tail st) < KEYBOARD_BUFFER_SIZE \<and>
      unat (buffer_head st) =
        (unat (buffer_tail st) + unat (buffer_count st)) mod KEYBOARD_BUFFER_SIZE)"

definition queue_contents :: "keyboard_handler_state \<Rightarrow> USB_HID_KeyboardData_t list" where
  "queue_contents st =
     map (\<lambda>i. keyboard_buffer st ! ((unat (buffer_tail st) + i) mod KEYBOARD_BUFFER_SIZE))
       [0..<unat (buffer_count st)]"

fun process_reports ::
  "uint8_t list list \<Rightarrow> keyboard_handler_state \<Rightarrow>
   KeyboardHandlerStatus_t list \<times> keyboard_handler_state" where
  "process_reports [] st = ([], st)"
| "process_reports (r # rs) st =
     (case keyboard_handler_process_report (Some r) 8 st of
        (res, st') \<Rightarrow>
          (case process_reports rs st' of (ress, st'') \<Rightarrow> (res # ress, st'')))"

fun get_data_n ::
  "nat \<Rightarrow> USB_HID_KeyboardData_t option \<Rightarrow> keyboard_handler_state \<Rightarrow>
   (KeyboardDataStatus_t \<times> USB_HID_KeyboardData_t option) list \<times> keyboard_handler_state" where
  "get_data_n 0 p st = ([], st)"
| "get_data_n (Suc n) p st =
     (case keyboard_handler_get_data p st of
        (res, p', st') \<Rightarrow>
          (case get_data_n n p' st' of (ress, st'') \<Rightarrow> ((res, p') # ress, st'')))"

section \<open>Concrete inputs\<close>

text \<open>Snapshots, reports and buffers at which the theorems below are instantiated.\<close>

definition key_a_pressed :: USB_HID_KeyboardData_t where
  "key_a_pressed =
     \<lparr>modifier = 0, reserved = 0, keys = [USB_HID_KEY_A, 0, 0, 0, 0, 0], key_count = 1\<rparr>"

definition right_alt_pressed :: USB_HID_KeyboardData_t where
  "right_alt_pressed =
     \<lparr>modifier = USB_HID_MODIFIER_RIGHT_ALT, reserved = 0,
      keys = replicate USB_HID_MAX_KEYS 0, key_count = 0\<rparr>"

definition report_a :: "uint8_t list" where
  "report_a = [0, 0, USB_HID_KEY_A, 0, 0, 0, 0, 0]"

definition zero_scancode :: PS2_ScanCode_t where
  "zero_scancode = \<lparr>data = [0, 0, 0, 0], length_sc = 0\<rparr>"

definition zero_temp :: "PS2_ScanCode_t list" where
  "zero_temp = replicate MAX_TRANSLATION_BUFFER zero_scancode"

definition ready_bus :: ps2_state where
  "ready_bus = \<lparr>ps2_status = PS2_READY, bus = []\<rparr>"

definition full_handler :: keyboard_handler_state where
  "full_handler =
     \<lparr>keyboard_buffer = replicate KEYBOARD_BUFFER_SIZE zero_keyboard_data,
      buffer_head = 0, buffer_tail = 0, buffer_count = 16,
      last_keyboard_state = key_a_pressed, handler_status = KEYBOARD_HANDLER_READY\<rparr>"

definition fresh_translator :: translator_state where
  "fresh_translator =
     \<lparr>translator_status = TRANSLATOR_INIT, last_usb_state = zero_keyboard_data\<rparr>"

definition keys_abcd :: USB_HID_KeyboardData_t where
  "keys_abcd =
     \<lparr>modifier = 0, reserved = 0,
      keys = [USB_HID_KEY_A, USB_HID_KEY_B, USB_HID_KEY_C, USB_HID_KEY_D, 0, 0],
      key_count = 4\<rparr>"

definition keys_efgh :: USB_HID_KeyboardData_t where
  "keys_efgh =
     \<lparr>modifier = 0, reserved = 0,
      keys = [USB_HID_KEY_E, USB_HID_KEY_F, USB_HID_KEY_G, USB_HID_KEY_H, 0, 0],
      key_count = 4\<rparr>"

definition keys_abcde :: USB_HID_KeyboardData_t where
  "keys_abcde =
     \<lparr>modifier = 0, reserved = 0,
      keys = [USB_HID_KEY_A, USB_HID_KEY_B, USB_HID_KEY_C, USB_HID_KEY_D, USB_HID_KEY_E, 0],
      key_count = 5\<rparr>"

definition keys_fghij :: USB_HID_KeyboardData_t where
  "keys_fghij =
     \<lparr>modifier = 0, reserved = 0,
      keys = [USB_HID_KEY_F, USB_HID_KEY_G, USB_HID_KEY_H, USB_HID_KEY_I, USB_HID_KEY_J, 0],
      key_count = 5\<rparr>"

definition four_modifiers_and_a :: USB_HID_KeyboardData_t where
  "four_modifiers_and_a =
     \<lparr>modifier = 0x17, reserved = 0, keys = [USB_HID_KEY_A, 0, 0, 0, 0, 0], key_count = 1\<rparr>"

definition translator_after :: "USB_HID_KeyboardData_t \<Rightarrow> translator_state" where
  "translator_after kd = \<lparr>translator_status = TRANSLATOR_READY, last_usb_state = kd\<rparr>"

definition report_with_key :: "uint8_t \<Rightarrow> uint8_t list" where
  "report_with_key k = [0, 0, k, 0, 0, 0, 0, 0]"

definition only_key :: "uint8_t \<Rightarrow> USB_HID_KeyboardData_t" where
  "only_key k = \<lparr>modifier = 0, reserved = 0, keys = [k, 0, 0, 0, 0, 0], key_count = 1\<rparr>"

definition sixteen_reports :: "uint8_t list list" where
  "sixteen_reports =
     map report_with_key [4, 5, 6, 7, 8, 9, 10, 11, 12, 13, 14, 15, 16, 17, 18, 19]"

definition report_17 :: "uint8_t list" where
  "report_17 = report_with_key 20"

definition empty_handler :: keyboard_handler_state where
  "empty_handler =
     \<lparr>keyboard_buffer = replicate KEYBOARD_BUFFER_SIZE zero_keyboard_data,
      buffer_head = 0, buffer_tail = 0, buffer_count = 0,
      last_keyboard_state = zero_keyboard_data, handler_status = KEYBOARD_HANDLER_READY\<rparr>"

section \<open>Evaluation lemmas\<close>

lemma upt_small:
  "[0..<1] = [0]" "[0..<2] = [0, 1]" "[0..<3] = [0, 1, 2]" "[0..<4] = [0, 1, 2, 3]"
  "[0..<5] = [0, 1, 2, 3, 4]" "[0..<6] = [0, 1, 2, 3, 4, 5]"
  by (simp_all add: upt_rec)

lemma replicate_6: "replicate 6 x = [x, x, x, x, x, x]"
  by (simp add: eval_nat_numeral)

lemma replicate_8: "replicate 8 x = [x, x, x, x, x, x, x, x]"
  by (simp add: eval_nat_numeral)

lemma length_4E:
  assumes "length xs = 4"
  obtains a b c d where "xs = [a, b, c, d]"
  using assms by (auto simp: eval_nat_numeral length_Suc_conv)

lemma wf_scancodeE:
  assumes "wf_scancode sc"
  obtains a b c d where "data sc = [a, b, c, d]"
  using assms length_4E unfolding wf_scancode_def PS2_MAX_SCANCODE_LENGTH_def by blast

lemma wf_temp_slot: "wf_temp t \<Longrightarrow> i < MAX_TRANSLATION_BUFFER \<Longrightarrow> wf_scancode (t ! i)"
  by (simp add: wf_temp_def list_all_length)

lemma wf_temp_length: "wf_temp t \<Longrightarrow> length t = MAX_TRANSLATION_BUFFER"
  by (simp add: wf_temp_def)

lemma wf_zero_temp: "wf_temp zero_temp"
  by (simp add: wf_temp_def zero_temp_def zero_scancode_def wf_scancode_def
      MAX_TRANSLATION_BUFFER_def PS2_MAX_SCANCODE_LENGTH_def replicate_8)

lemma wf_zero_scancode: "wf_scancode zero_scancode"
  by (simp add: zero_scancode_def wf_scancode_def PS2_MAX_SCANCODE_LENGTH_def)

lemma find_keys:
  "find_ps2_scancode 0x04 = Some (0x1C, 0)" "find_ps2_scancode 0x05 = Some (0x32, 0)"
  "find_ps2_scancode 0x06 = Some (0x21, 0)" "find_ps2_scancode 0x07 = Some (0x23, 0)"
  "find_ps2_scancode 0x08 = Some (0x24, 0)" "find_ps2_scancode 0x09 = Some (0x2B, 0)"
  "find_ps2_scancode 0x0A = Some (0x34, 0)" "find_ps2_scancode 0x0B = Some (0x33, 0)"
  "find_ps2_scancode 0x0C = Some (0x43, 0)" "find_ps2_scancode 0x0D = Some (0x3B, 0)"
  by (simp_all add: find_ps2_scancode_def key_mapping_table_def)

lemmas translate_defs =
  scancode_translator_usb_to_ps2_def translate_modifier_keys_def modifier_block_def seq_def
  translate_regular_keys_def store_scancode_def is_key_in_array_def
  ps2_create_make_code_def ps2_create_break_code_def ps2_create_extended_make_code_def
  ps2_create_extended_break_code_def ps2_copy_scancode_def ps2_validate_scancode_def
  scancode_translator_reset_def zero_keyboard_data_def
  MAX_TRANSLATION_BUFFER_def PS2_MAX_SCANCODE_LENGTH_def USB_HID_MAX_KEYS_def
  PS2_BREAK_CODE_PREFIX_def PS2_EXTENDED_CODE_PREFIX_def

lemmas zero_temp_defs = zero_temp_def zero_scancode_def MAX_TRANSLATION_BUFFER_def replicate_8

lemma parse_report_a: "keyboard_parse_hid_report report_a = key_a_pressed"
  by (simp add: keyboard_parse_hid_report_def report_a_def key_a_pressed_def
      zero_keyboard_data_def KEYBOARD_MAX_KEYS_def KEYBOARD_KEY_OFFSET_def
      KEYBOARD_MODIFIER_OFFSET_def USB_HID_MAX_KEYS_def upt_small replicate_6 Let_def)

section \<open>Properties of the framer\<close>

lemma ps2_send_bit_bus: "ps2_send_bit v st = st\<lparr>bus := bus st @ bit_events v\<rparr>"
  by (simp add: ps2_send_bit_def write_pin_def ps2_delay_us_def bit_events_def Let_def)

lemma data_bits_loop_bus:
  "data_bits_loop d is st =
     st\<lparr>bus := bus st @ concat (map (\<lambda>i. bit_events (drop_bit i d AND 1)) is)\<rparr>"
  by (induction "is" arbitrary: st) (simp_all add: ps2_send_bit_bus)

lemma decode_bit_events:
  "ps2_decode GPIO_PIN_SET dat (bit_events v @ evs) =
     (v \<noteq> 0) # ps2_decode GPIO_PIN_SET (if v \<noteq> 0 then GPIO_PIN_SET else GPIO_PIN_RESET) evs"
  by (simp add: bit_events_def)

lemma decode_bit_events_last: "ps2_decode GPIO_PIN_SET dat (bit_events v) = [v \<noteq> 0]"
  by (simp add: bit_events_def)

lemma drop_bit_and_1: "(drop_bit i (d::uint8_t) AND 1 \<noteq> 0) = bit d i"
  by (simp add: and_one_eq bit_iff_odd_drop_bit mod_2_eq_odd)

lemma decode_data_bits:
  "ps2_decode GPIO_PIN_SET dat
     (concat (map (\<lambda>i. bit_events (drop_bit i d AND 1)) is) @ evs) =
   map (bit d) is @
   ps2_decode GPIO_PIN_SET
     (if is = [] then dat
      else if bit d (last is) then GPIO_PIN_SET else GPIO_PIN_RESET) evs"
  by (induction "is" arbitrary: dat) (simp_all add: decode_bit_events drop_bit_and_1)

lemma and_push_bit_1: "((d::uint8_t) AND push_bit i 1 = 0) = (\<not> bit d i)"
  by (metis and_exp_eq_0_iff_not_bit push_bit_of_1)

lemma of_bool_xor_1: "(of_bool q :: uint8_t) XOR 1 = of_bool (\<not> q)"
  by (cases q) simp_all

lemma count_ones_Cons: "count_ones (b # bs) = (if b then Suc (count_ones bs) else count_ones bs)"
  by (simp add: count_ones_def)

lemma parity_loop_Cons:
  "parity_loop d (i # is) (of_bool q) = parity_loop d is (of_bool (q \<noteq> bit d i))"
  using and_push_bit_1 [of d i] by (simp add: of_bool_xor_1 del: push_bit_of_1)

lemma parity_loop_of_bool:
  "parity_loop d is (of_bool q) = of_bool (q \<noteq> odd (count_ones (map (bit d) is)))"
proof (induction "is" arbitrary: q)
  case Nil
  show ?case by (simp add: count_ones_def)
next
  case (Cons i "is")
  have "parity_loop d (i # is) (of_bool q) =
          of_bool ((q \<noteq> bit d i) \<noteq> odd (count_ones (map (bit d) is)))"
    unfolding parity_loop_Cons by (rule Cons.IH)
  also have "\<dots> = of_bool (q \<noteq> odd (count_ones (map (bit d) (i # is))))"
    by (simp add: count_ones_Cons)
  finally show ?case .
qed

text \<open>
  C1. For every byte \<open>b\<close> and every framer state, \<open>ps2_send_byte b\<close> returns
  \<open>PS2_OK\<close> and appends to the bus a run of events which a receiver sampling the
  data line at the falling clock edges (clock idle high before the call) reads as:
  a start bit 0, the eight bits of \<open>b\<close> from bit 0 to bit 7, a parity bit \<open>p\<close>, a stop
  bit 1; and the number of ones among the eight data bits and \<open>p\<close> is odd.
\<close>

theorem ps2_send_byte_frame:
  "\<exists>evs p. ps2_send_byte b st = (PS2_OK, st\<lparr>bus := bus st @ evs\<rparr>) \<and>
     ps2_decode GPIO_PIN_SET dat evs = False # map (bit b) [0..<8] @ [p, True] \<and>
     odd (count_ones (map (bit b) [0..<8] @ [p]))"
proof -
  define par where "par = parity_loop b [0..<8] 1"
  define evs where "evs = bit_events 0 @
      concat (map (\<lambda>i. bit_events (drop_bit i b AND 1)) [0..<8]) @
      bit_events par @ bit_events 1"
  have run: "ps2_send_byte b st = (PS2_OK, st\<lparr>bus := bus st @ evs\<rparr>)"
    by (simp add: ps2_send_byte_def Let_def ps2_send_bit_bus data_bits_loop_bus evs_def par_def)
  have dec: "ps2_decode GPIO_PIN_SET dat evs = False # map (bit b) [0..<8] @ [par \<noteq> 0, True]"
    by (simp add: evs_def decode_bit_events decode_data_bits decode_bit_events_last)
  have "par = of_bool (even (count_ones (map (bit b) [0..<8])))"
    using parity_loop_of_bool [of b "[0..<8]" True] by (simp add: par_def)
  then have par: "(par \<noteq> 0) = even (count_ones (map (bit b) [0..<8]))"
    by simp
  have cnt: "count_ones (bs @ [q]) = (if q then Suc (count_ones bs) else count_ones bs)"
    for bs q
    by (simp add: count_ones_def)
  have "odd (count_ones (map (bit b) [0..<8] @ [par \<noteq> 0]))"
    unfolding cnt par by simp
  with run dec show ?thesis
    by (intro exI [of _ evs] exI [of _ "par \<noteq> 0"]) simp
qed

lemma send_zero_length:
  "ps2_status st = PS2_READY \<Longrightarrow> length_sc sc = 0 \<Longrightarrow>
   ps2_send_scancode (Some sc) st = Inr (PS2_OK, st)"
  by (cases st) (simp add: ps2_send_scancode_def)

text \<open>
  C4, as the code has it. A call with a null sequence, or made while the framer's
  status is not \<open>PS2_READY\<close> (so before initialisation has completed), returns
  \<open>PS2_ERROR\<close>, the only failure status of the framer, and leaves the state, bus trace
  included, as it was. A call with a zero-length sequence on a ready framer puts
  nothing on the bus either and leaves the state as it was, and it returns \<open>PS2_OK\<close>.
\<close>

theorem ps2_send_scancode_rejects:
  "(scancode = None \<or> ps2_status st \<noteq> PS2_READY \<longrightarrow>
      ps2_send_scancode scancode st = Inr (PS2_ERROR, st)) \<and>
   (ps2_status st = PS2_READY \<and> length_sc sc = 0 \<longrightarrow>
      ps2_send_scancode (Some sc) st = Inr (PS2_OK, st))"
  by (auto simp: ps2_send_scancode_def send_zero_length split: option.splits)

theorem ps2_send_scancode_rejects_witness:
  "ps2_send_scancode None ready_bus = Inr (PS2_ERROR, ready_bus) \<and>
   ps2_send_scancode (Some zero_scancode) ready_bus = Inr (PS2_OK, ready_bus)"
  using ps2_send_scancode_rejects [of None ready_bus zero_scancode]
  by (simp add: ready_bus_def zero_scancode_def)

text \<open>
  C4 as stated fails: a zero-length sequence sent on a ready framer is not rejected.
\<close>

theorem zero_length_send_counterexample:
  "\<not> (\<exists>st'. ps2_send_scancode (Some zero_scancode) ready_bus = Inr (PS2_ERROR, st'))"
  by (simp add: ps2_send_scancode_def ready_bus_def zero_scancode_def)

section \<open>Properties of the capture queue\<close>

text \<open>
  C7. A report of 8 bytes whose parsed snapshot equals the most recently captured
  snapshot makes \<open>keyboard_handler_process_report\<close> return \<open>KEYBOARD_HANDLER_OK\<close> and
  leave the whole handler state, the queue included, as it was.
\<close>

theorem process_report_unchanged:
  assumes "unat report_size = KEYBOARD_REPORT_SIZE"
    and "length r = KEYBOARD_REPORT_SIZE"
    and "keyboard_parse_hid_report r = last_keyboard_state st"
  shows "keyboard_handler_process_report (Some r) report_size st = (KEYBOARD_HANDLER_OK, st)"
  using assms by (simp add: keyboard_handler_process_report_def)

theorem process_report_unchanged_witness:
  "keyboard_handler_process_report (Some report_a) 8 full_handler =
     (KEYBOARD_HANDLER_OK, full_handler)"
proof -
  have "unat (8 :: uint16_t) = KEYBOARD_REPORT_SIZE"
    by (simp add: KEYBOARD_REPORT_SIZE_def)
  moreover have "length report_a = KEYBOARD_REPORT_SIZE"
    by (simp add: report_a_def KEYBOARD_REPORT_SIZE_def)
  moreover have "keyboard_parse_hid_report report_a = last_keyboard_state full_handler"
    by (simp add: parse_report_a full_handler_def)
  ultimately show ?thesis
    by (rule process_report_unchanged)
qed

lemma put_count_le:
  assumes "unat (buffer_count st) \<le> KEYBOARD_BUFFER_SIZE"
  shows "unat (buffer_count (keyboard_buffer_put d st)) \<le> KEYBOARD_BUFFER_SIZE"
proof (cases "keyboard_buffer_is_full st")
  case True
  with assms show ?thesis by (simp add: keyboard_buffer_put_def)
next
  case False
  then have "unat (buffer_count st) < 16"
    by (simp add: keyboard_buffer_is_full_def KEYBOARD_BUFFER_SIZE_def)
  then have "unat (buffer_count st + 1) \<le> 16"
    by (simp add: unat_word_ariths)
  with False show ?thesis
    by (simp add: keyboard_buffer_put_def KEYBOARD_BUFFER_SIZE_def)
qed

lemma get_count_le:
  assumes "unat (buffer_count st) \<le> KEYBOARD_BUFFER_SIZE"
  shows "unat (buffer_count (snd (keyboard_buffer_get d st))) \<le> KEYBOARD_BUFFER_SIZE"
proof (cases "keyboard_buffer_is_empty st")
  case True
  with assms show ?thesis by (simp add: keyboard_buffer_get_def)
next
  case False
  then have "buffer_count st \<noteq> 0"
    by (simp add: keyboard_buffer_is_empty_def)
  then have "unat (buffer_count st - 1) = unat (buffer_count st) - 1"
    by (rule unat_minus_one)
  with False assms show ?thesis
    by (simp add: keyboard_buffer_get_def)
qed

lemma process_report_count_le:
  assumes "unat (buffer_count st) \<le> KEYBOARD_BUFFER_SIZE"
  shows "unat (buffer_count (snd (keyboard_handler_process_report r n st)))
           \<le> KEYBOARD_BUFFER_SIZE"
  using assms put_count_le [OF assms]
  by (simp add: keyboard_handler_process_report_def Let_def split: option.splits)

lemma get_data_count_le:
  assumes "unat (buffer_count st) \<le> KEYBOARD_BUFFER_SIZE"
  shows "unat (buffer_count (snd (snd (keyboard_handler_get_data p st))))
           \<le> KEYBOARD_BUFFER_SIZE"
proof (cases p)
  case None
  with assms show ?thesis by (simp add: keyboard_handler_get_data_def)
next
  case (Some d)
  with assms get_count_le [OF assms, of d] show ?thesis
    by (cases "keyboard_buffer_get d st") (simp add: keyboard_handler_get_data_def)
qed

lemma process_report_full:
  "keyboard_buffer_is_full st \<Longrightarrow> snd (keyboard_handler_process_report r n st) = st"
  by (simp add: keyboard_handler_process_report_def Let_def split: option.splits)

text \<open>
  C10. The count is 0 after initialisation and after a clear. From a state whose
  count is at most 16, the count is still at most 16 after an enqueue, a dequeue, a
  processed report and a fetched snapshot, so it stays in the range from 0 to 16
  along every run. An enqueue on a full queue returns the state it was given:
  contents, head, tail and count are unchanged, and so does a processed report.
\<close>

theorem capture_queue_count_bound:
  "(unat (buffer_count st) \<le> KEYBOARD_BUFFER_SIZE \<longrightarrow>
      unat (buffer_count (keyboard_buffer_put d st)) \<le> KEYBOARD_BUFFER_SIZE \<and>
      unat (buffer_count (snd (keyboard_buffer_get d st))) \<le> KEYBOARD_BUFFER_SIZE \<and>
      unat (buffer_count (snd (keyboard_handler_process_report r n st)))
        \<le> KEYBOARD_BUFFER_SIZE \<and>
      unat (buffer_count (snd (snd (keyboard_handler_get_data p st))))
        \<le> KEYBOARD_BUFFER_SIZE) \<and>
   buffer_count (keyboard_handler_clear_buffer st) = 0 \<and>
   buffer_count (snd (keyboard_handler_init st)) = 0 \<and>
   (keyboard_buffer_is_full st \<longrightarrow>
      keyboard_buffer_put d st = st \<and>
      snd (keyboard_handler_process_report r n st) = st)"
proof (intro conjI impI)
  show "buffer_count (keyboard_handler_clear_buffer st) = 0"
    by (simp add: keyboard_handler_clear_buffer_def)
  show "buffer_count (snd (keyboard_handler_init st)) = 0"
    by (simp add: keyboard_handler_init_def)
  show "keyboard_buffer_put d st = st" if "keyboard_buffer_is_full st"
    using that by (simp add: keyboard_buffer_put_def)
  show "snd (keyboard_handler_process_report r n st) = st" if "keyboard_buffer_is_full st"
    using that by (rule process_report_full)
qed (rule put_count_le get_count_le process_report_count_le get_data_count_le, assumption)+

theorem capture_queue_count_bound_witness:
  "unat (buffer_count full_handler) \<le> KEYBOARD_BUFFER_SIZE \<and>
   keyboard_buffer_is_full full_handler \<and>
   keyboard_buffer_put key_a_pressed full_handler = full_handler \<and>
   snd (keyboard_handler_process_report (Some (replicate 8 0)) 8 full_handler) = full_handler \<and>
   unat (buffer_count (snd (keyboard_buffer_get key_a_pressed full_handler)))
     \<le> KEYBOARD_BUFFER_SIZE \<and>
   unat (buffer_count (snd (snd (keyboard_handler_get_data (Some key_a_pressed) full_handler))))
     \<le> KEYBOARD_BUFFER_SIZE"
proof -
  have le: "unat (buffer_count full_handler) \<le> KEYBOARD_BUFFER_SIZE"
    and full: "keyboard_buffer_is_full full_handler"
    by (simp_all add: full_handler_def KEYBOARD_BUFFER_SIZE_def keyboard_buffer_is_full_def)
  show ?thesis
    using le full
      capture_queue_count_bound [of full_handler key_a_pressed "Some (replicate 8 0)" 8
        "Some key_a_pressed"]
    by simp
qed

subsection \<open>First in, first out\<close>

lemma keyboard_handler_init_empty:
  assumes "length (keyboard_buffer st) = KEYBOARD_BUFFER_SIZE"
  shows "handler_inv (snd (keyboard_handler_init st))"
    and "buffer_count (snd (keyboard_handler_init st)) = 0"
  using assms by (simp_all add: keyboard_handler_init_def handler_inv_def KEYBOARD_BUFFER_SIZE_def)

lemma mod16_inj:
  fixes t i c :: nat
  assumes "i < c" and "c < 16"
  shows "(t + i) mod 16 \<noteq> (t + c) mod 16"
proof
  assume eq: "(t + i) mod 16 = (t + c) mod 16"
  have "t + i \<le> t + c"
    using assms by simp
  then have "16 dvd (t + c) - (t + i)"
    using eq mod_eq_dvd_iff_nat [of "t + i" "t + c" 16] by simp
  then have "16 dvd c - i"
    by simp
  moreover have "0 < c - i" and "c - i < 16"
    using assms by simp_all
  ultimately show False
    using nat_dvd_not_less by blast
qed

lemma unat_succ_mod16:
  fixes h :: uint8_t
  shows "unat ((h + 1) mod 16) = (unat h + 1) mod 16"
proof -
  have "unat ((h + 1) mod 16) = ((unat h + 1) mod 256) mod 16"
    by (simp add: unat_mod unat_word_ariths)
  also have "\<dots> = (unat h + 1) mod 16"
    by (simp add: mod_mod_cancel)
  finally show ?thesis .
qed

lemma put_inv:
  assumes inv: "handler_inv st" and nf: "\<not> keyboard_buffer_is_full st"
  shows "handler_inv (keyboard_buffer_put d st)"
    and "queue_contents (keyboard_buffer_put d st) = queue_contents st @ [d]"
    and "unat (buffer_count (keyboard_buffer_put d st)) = Suc (unat (buffer_count st))"
proof -
  let ?c = "unat (buffer_count st)" and ?t = "unat (buffer_tail st)"
  let ?h = "unat (buffer_head st)" and ?b = "keyboard_buffer st"
  from nf have c: "?c < 16"
    by (simp add: keyboard_buffer_is_full_def KEYBOARD_BUFFER_SIZE_def)
  then have c': "unat (buffer_count st + 1) = Suc ?c"
    by (simp add: unat_word_ariths)
  from inv have len: "length ?b = 16" and t: "?t < 16" and h: "?h = (?t + ?c) mod 16"
    by (simp_all add: handler_inv_def KEYBOARD_BUFFER_SIZE_def)
  have put: "keyboard_buffer_put d st =
      st\<lparr>keyboard_buffer := ?b[?h := d], buffer_head := (buffer_head st + 1) mod 16,
         buffer_count := buffer_count st + 1\<rparr>"
    using nf by (simp add: keyboard_buffer_put_def)
  have h': "unat ((buffer_head st + 1) mod 16) = (?t + Suc ?c) mod 16"
    unfolding unat_succ_mod16 h by (simp add: mod_Suc_eq)
  show "handler_inv (keyboard_buffer_put d st)"
    using len t c c' h'
    by (simp add: put handler_inv_def KEYBOARD_BUFFER_SIZE_def)
  show "unat (buffer_count (keyboard_buffer_put d st)) = Suc ?c"
    by (simp add: put c')
  have other: "?b[?h := d] ! ((?t + i) mod 16) = ?b ! ((?t + i) mod 16)" if "i < ?c" for i
  proof -
    have "(?t + i) mod 16 \<noteq> (?t + ?c) mod 16"
      using that c by (rule mod16_inj)
    then show ?thesis by (simp add: h)
  qed
  have new: "?b[?h := d] ! ((?t + ?c) mod 16) = d"
    using len by (simp add: h)
  show "queue_contents (keyboard_buffer_put d st) = queue_contents st @ [d]"
    using other new
    by (simp add: put queue_contents_def c' KEYBOARD_BUFFER_SIZE_def)
qed

lemma get_inv:
  assumes inv: "handler_inv st" and ne: "\<not> keyboard_buffer_is_empty st"
  shows "handler_inv (snd (keyboard_buffer_get d st))"
    and "queue_contents st =
           fst (keyboard_buffer_get d st) # queue_contents (snd (keyboard_buffer_get d st))"
    and "Suc (unat (buffer_count (snd (keyboard_buffer_get d st)))) = unat (buffer_count st)"
proof -
  let ?c = "unat (buffer_count st)" and ?t = "unat (buffer_tail st)"
  let ?h = "unat (buffer_head st)" and ?b = "keyboard_buffer st"
  from ne have nz: "buffer_count st \<noteq> 0"
    by (simp add: keyboard_buffer_is_empty_def)
  then have c': "unat (buffer_count st - 1) = ?c - 1"
    by (rule unat_minus_one)
  from nz have c: "0 < ?c"
    by (simp add: unat_gt_0)
  from inv have len: "length ?b = 16" and t: "?t < 16" and h: "?h = (?t + ?c) mod 16"
    and cle: "?c \<le> 16"
    by (simp_all add: handler_inv_def KEYBOARD_BUFFER_SIZE_def)
  have get: "keyboard_buffer_get d st =
      (?b ! ?t, st\<lparr>buffer_tail := (buffer_tail st + 1) mod 16,
                    buffer_count := buffer_count st - 1\<rparr>)"
    using ne by (simp add: keyboard_buffer_get_def)
  have t': "unat ((buffer_tail st + 1) mod 16) = Suc ?t mod 16"
    by (simp add: unat_succ_mod16)
  have "(Suc ?t mod 16 + (?c - 1)) mod 16 = (Suc ?t + (?c - 1)) mod 16"
    by (rule mod_add_left_eq)
  also have "Suc ?t + (?c - 1) = ?t + ?c"
    using c by simp
  finally have hd: "(Suc ?t mod 16 + (?c - 1)) mod 16 = (?t + ?c) mod 16" .
  show "handler_inv (snd (keyboard_buffer_get d st))"
    using len cle c h hd
    by (simp add: get handler_inv_def KEYBOARD_BUFFER_SIZE_def c' t')
  show "Suc (unat (buffer_count (snd (keyboard_buffer_get d st)))) = ?c"
    using c by (simp add: get c')
  have shift: "(Suc ?t mod 16 + i) mod 16 = (?t + Suc i) mod 16" for i
    by (simp add: mod_add_left_eq)
  have "[0..<?c] = 0 # map Suc [0..<?c - 1]"
    using c by (metis Suc_pred' map_Suc_upt upt_conv_Cons)
  then have "queue_contents st =
      ?b ! (?t mod 16) # map (\<lambda>i. ?b ! ((?t + Suc i) mod 16)) [0..<?c - 1]"
    by (simp add: queue_contents_def KEYBOARD_BUFFER_SIZE_def comp_def)
  then show "queue_contents st =
      fst (keyboard_buffer_get d st) # queue_contents (snd (keyboard_buffer_get d st))"
    using t by (simp add: get queue_contents_def KEYBOARD_BUFFER_SIZE_def c' t' shift)
qed

lemma process_report_enqueues:
  assumes inv: "handler_inv st" and nf: "\<not> keyboard_buffer_is_full st"
    and new: "keyboard_parse_hid_report r \<noteq> last_keyboard_state st"
  shows "\<exists>st'. keyboard_handler_process_report (Some r) 8 st = (KEYBOARD_HANDLER_OK, st') \<and>
           handler_inv st' \<and>
           queue_contents st' = queue_contents st @ [keyboard_parse_hid_report r] \<and>
           last_keyboard_state st' = keyboard_parse_hid_report r \<and>
           unat (buffer_count st') = Suc (unat (buffer_count st))"
proof -
  let ?kd = "keyboard_parse_hid_report r"
  let ?st' = "(keyboard_buffer_put ?kd st)\<lparr>last_keyboard_state := ?kd\<rparr>"
  have run: "keyboard_handler_process_report (Some r) 8 st = (KEYBOARD_HANDLER_OK, ?st')"
    using nf new
    by (simp add: keyboard_handler_process_report_def KEYBOARD_REPORT_SIZE_def Let_def)
  have "handler_inv ?st'" and "queue_contents ?st' = queue_contents st @ [?kd]"
    and "unat (buffer_count ?st') = Suc (unat (buffer_count st))"
    using put_inv [OF inv nf, of ?kd]
    by (simp_all add: handler_inv_def queue_contents_def)
  with run show ?thesis by simp
qed

lemma process_reports_enqueue:
  assumes "handler_inv st"
    and "unat (buffer_count st) + length rs \<le> KEYBOARD_BUFFER_SIZE"
    and "distinct_adj (last_keyboard_state st # map keyboard_parse_hid_report rs)"
  shows "\<exists>st'. process_reports rs st = (replicate (length rs) KEYBOARD_HANDLER_OK, st') \<and>
           handler_inv st' \<and>
           queue_contents st' = queue_contents st @ map keyboard_parse_hid_report rs \<and>
           last_keyboard_state st' =
             last (last_keyboard_state st # map keyboard_parse_hid_report rs) \<and>
           unat (buffer_count st') = unat (buffer_count st) + length rs"
  using assms
proof (induction rs arbitrary: st)
  case Nil
  then show ?case by simp
next
  case (Cons r rs)
  from Cons.prems(2) have nf: "\<not> keyboard_buffer_is_full st"
    by (simp add: keyboard_buffer_is_full_def)
  from Cons.prems(3) have new: "keyboard_parse_hid_report r \<noteq> last_keyboard_state st"
    and rest: "distinct_adj (keyboard_parse_hid_report r # map keyboard_parse_hid_report rs)"
    by auto
  from process_report_enqueues [OF Cons.prems(1) nf new]
  obtain st1 where step: "keyboard_handler_process_report (Some r) 8 st = (KEYBOARD_HANDLER_OK, st1)"
    and inv1: "handler_inv st1"
    and q1: "queue_contents st1 = queue_contents st @ [keyboard_parse_hid_report r]"
    and l1: "last_keyboard_state st1 = keyboard_parse_hid_report r"
    and c1: "unat (buffer_count st1) = Suc (unat (buffer_count st))"
    by blast
  have "unat (buffer_count st1) + length rs \<le> KEYBOARD_BUFFER_SIZE"
    using Cons.prems(2) c1 by simp
  moreover have "distinct_adj (last_keyboard_state st1 # map keyboard_parse_hid_report rs)"
    using rest l1 by simp
  ultimately obtain st' where
    run: "process_reports rs st1 = (replicate (length rs) KEYBOARD_HANDLER_OK, st')"
    and inv': "handler_inv st'"
    and q': "queue_contents st' = queue_contents st1 @ map keyboard_parse_hid_report rs"
    and l': "last_keyboard_state st' =
               last (last_keyboard_state st1 # map keyboard_parse_hid_report rs)"
    and c': "unat (buffer_count st') = unat (buffer_count st1) + length rs"
    using Cons.IH [OF inv1] by blast
  show ?case
    using step run inv' q' l' c' q1 l1 c1 by simp
qed

lemma get_data_n_dequeues:
  assumes "handler_inv st" and "n \<le> unat (buffer_count st)"
  shows "fst (get_data_n n (Some d) st) =
           map (\<lambda>x. (KEYBOARD_DATA_AVAILABLE, Some x)) (take n (queue_contents st))"
  using assms
proof (induction n arbitrary: st d)
  case 0
  then show ?case by simp
next
  case (Suc n)
  from Suc.prems(2) have ne: "\<not> keyboard_buffer_is_empty st"
    by (auto simp: keyboard_buffer_is_empty_def)
  obtain x st1 where g: "keyboard_buffer_get d st = (x, st1)"
    by (cases "keyboard_buffer_get d st")
  from get_inv [OF Suc.prems(1) ne, of d] g
  have inv1: "handler_inv st1" and q: "queue_contents st = x # queue_contents st1"
    and c: "Suc (unat (buffer_count st1)) = unat (buffer_count st)"
    by simp_all
  have step: "keyboard_handler_get_data (Some d) st = (KEYBOARD_DATA_AVAILABLE, Some x, st1)"
    using ne g by (simp add: keyboard_handler_get_data_def)
  have "n \<le> unat (buffer_count st1)"
    using Suc.prems(2) c by simp
  from Suc.IH [OF inv1 this, of x] show ?case
    by (cases "get_data_n n (Some x) st1") (simp add: step q)
qed

text \<open>
  C5. Start from an empty queue (sixteen slots, count 0, head at the tail). Let
  sixteen 8-byte reports and a seventeenth be given whose snapshots each differ from
  the one captured before (the first from the last captured snapshot of the start
  state), as distinct snapshots do. Then the sixteen reports are all accepted with
  \<open>KEYBOARD_HANDLER_OK\<close>; the seventeenth returns \<open>KEYBOARD_HANDLER_BUFFER_FULL\<close> and
  leaves the whole state as it was, so nothing is dropped and the most recently
  captured snapshot is not updated; and sixteen calls of \<open>keyboard_handler_get_data\<close>
  then return the snapshots of the sixteen reports in the order of arrival.
\<close>

theorem seventeenth_report_rejected:
  assumes "handler_inv st0" and "buffer_count st0 = 0"
    and "length rs = KEYBOARD_BUFFER_SIZE"
    and "list_all (\<lambda>r. length r = KEYBOARD_REPORT_SIZE) (rs @ [r17])"
    and "distinct_adj (last_keyboard_state st0 # map keyboard_parse_hid_report (rs @ [r17]))"
  shows "\<exists>st16.
     process_reports rs st0 = (replicate KEYBOARD_BUFFER_SIZE KEYBOARD_HANDLER_OK, st16) \<and>
     keyboard_handler_process_report (Some r17) 8 st16 = (KEYBOARD_HANDLER_BUFFER_FULL, st16) \<and>
     fst (get_data_n KEYBOARD_BUFFER_SIZE (Some d) st16) =
       map (\<lambda>r. (KEYBOARD_DATA_AVAILABLE, Some (keyboard_parse_hid_report r))) rs"
proof -
  have q0: "queue_contents st0 = []"
    using assms(2) by (simp add: queue_contents_def)
  have da: "distinct_adj (last_keyboard_state st0 # map keyboard_parse_hid_report rs)"
    using assms(5)
      distinct_adj_appendD1 [of "last_keyboard_state st0 # map keyboard_parse_hid_report rs"
        "[keyboard_parse_hid_report r17]"]
    by simp
  have "unat (buffer_count st0) + length rs \<le> KEYBOARD_BUFFER_SIZE"
    using assms(2,3) by simp
  from process_reports_enqueue [OF assms(1) this da]
  obtain st16 where
    run: "process_reports rs st0 = (replicate (length rs) KEYBOARD_HANDLER_OK, st16)"
    and inv: "handler_inv st16"
    and q: "queue_contents st16 = map keyboard_parse_hid_report rs"
    and l: "last_keyboard_state st16 =
              last (last_keyboard_state st0 # map keyboard_parse_hid_report rs)"
    and c: "unat (buffer_count st16) = KEYBOARD_BUFFER_SIZE"
    using q0 assms(2,3) by auto
  have full: "keyboard_buffer_is_full st16"
    using c by (simp add: keyboard_buffer_is_full_def)
  have "rs \<noteq> []"
    using assms(3) by (auto simp: KEYBOARD_BUFFER_SIZE_def)
  then have "keyboard_parse_hid_report r17 \<noteq> last_keyboard_state st16"
    using assms(5) l
    by (auto simp: distinct_adj_append_iff last_map simp del: distinct_adj_Cons
        dest!: distinct_adj_ConsD) 
  then have rej: "keyboard_handler_process_report (Some r17) 8 st16 =
      (KEYBOARD_HANDLER_BUFFER_FULL, st16)"
    using full
    by (simp add: keyboard_handler_process_report_def KEYBOARD_REPORT_SIZE_def Let_def)
  have "fst (get_data_n KEYBOARD_BUFFER_SIZE (Some d) st16) =
      map (\<lambda>x. (KEYBOARD_DATA_AVAILABLE, Some x)) (take KEYBOARD_BUFFER_SIZE (queue_contents st16))"
    using inv c by (intro get_data_n_dequeues) simp_all
  then have deq: "fst (get_data_n KEYBOARD_BUFFER_SIZE (Some d) st16) =
      map (\<lambda>r. (KEYBOARD_DATA_AVAILABLE, Some (keyboard_parse_hid_report r))) rs"
    using assms(3) by (simp add: q comp_def)
  show ?thesis
    using run rej deq assms(3) by simp
qed

lemma parse_report_with_key:
  "k \<noteq> 0 \<Longrightarrow> k \<noteq> 1 \<Longrightarrow> keyboard_parse_hid_report (report_with_key k) = only_key k"
  by (simp add: keyboard_parse_hid_report_def report_with_key_def only_key_def
      zero_keyboard_data_def KEYBOARD_MAX_KEYS_def KEYBOARD_KEY_OFFSET_def
      KEYBOARD_MODIFIER_OFFSET_def USB_HID_MAX_KEYS_def upt_small replicate_6 Let_def)

theorem seventeenth_report_rejected_witness:
  "\<exists>st16.
     process_reports sixteen_reports empty_handler =
       (replicate KEYBOARD_BUFFER_SIZE KEYBOARD_HANDLER_OK, st16) \<and>
     keyboard_handler_process_report (Some report_17) 8 st16 =
       (KEYBOARD_HANDLER_BUFFER_FULL, st16) \<and>
     fst (get_data_n KEYBOARD_BUFFER_SIZE (Some zero_keyboard_data) st16) =
       map (\<lambda>r. (KEYBOARD_DATA_AVAILABLE, Some (keyboard_parse_hid_report r))) sixteen_reports"
proof -
  have inv: "handler_inv empty_handler"
    by (simp add: handler_inv_def empty_handler_def KEYBOARD_BUFFER_SIZE_def)
  have empty: "buffer_count empty_handler = 0"
    by (simp add: empty_handler_def)
  have len: "length sixteen_reports = KEYBOARD_BUFFER_SIZE"
    by (simp add: sixteen_reports_def KEYBOARD_BUFFER_SIZE_def)
  have bytes: "list_all (\<lambda>r. length r = KEYBOARD_REPORT_SIZE) (sixteen_reports @ [report_17])"
    by (simp add: sixteen_reports_def report_17_def report_with_key_def
        KEYBOARD_REPORT_SIZE_def)
  have differ: "distinct_adj (last_keyboard_state empty_handler #
      map keyboard_parse_hid_report (sixteen_reports @ [report_17]))"
    by (simp add: sixteen_reports_def report_17_def parse_report_with_key only_key_def
        empty_handler_def zero_keyboard_data_def USB_HID_MAX_KEYS_def replicate_6)
  show ?thesis
    using seventeenth_report_rejected [OF inv empty len bytes differ] .
qed

section \<open>Properties of the translator\<close>

text \<open>
  C8. From the all-released translator state, translating the snapshot with only key
  A pressed returns \<open>TRANSLATOR_OK\<close> and the one-byte make code \<open>0x1C\<close>; translating
  the all-released snapshot next returns \<open>TRANSLATOR_OK\<close> and the break code
  \<open>0xF0, 0x1C\<close>. This holds whatever the local array and the caller's structure held.
\<close>

theorem press_release_a:
  assumes "wf_temp temp0" and "wf_temp temp1" and "wf_scancode out"
  shows "\<exists>out1 st1 out2 st2.
     scancode_translator_usb_to_ps2 temp0 (Some key_a_pressed) (Some out)
       (scancode_translator_reset st) = Inr (TRANSLATOR_OK, Some out1, st1) \<and>
     sc_bytes out1 = [0x1C] \<and>
     scancode_translator_usb_to_ps2 temp1 (Some zero_keyboard_data) (Some out1) st1 =
       Inr (TRANSLATOR_OK, Some out2, st2) \<and>
     sc_bytes out2 = [0xF0, 0x1C]"
proof -
  obtain a b c d where out: "data out = [a, b, c, d]"
    using assms(3) by (rule wf_scancodeE)
  have "wf_scancode (temp0 ! 0)" and "wf_scancode (temp1 ! 0)"
    using assms by (simp_all add: wf_temp_slot MAX_TRANSLATION_BUFFER_def)
  then obtain a0 b0 c0 d0 a1 b1 c1 d1
    where t0: "data (temp0 ! 0) = [a0, b0, c0, d0]" and t1: "data (temp1 ! 0) = [a1, b1, c1, d1]"
    by (metis wf_scancodeE)
  have len: "length temp0 = 8" "length temp1 = 8"
    using assms wf_temp_length by (simp_all add: MAX_TRANSLATION_BUFFER_def)
  show ?thesis
    using out t0 t1 len
    by (cases st)
      (simp add: translate_defs key_a_pressed_def find_keys Let_def sc_bytes_def upt_small)
qed

theorem press_release_a_witness:
  "wf_temp zero_temp \<and> wf_scancode zero_scancode \<and>
   (\<exists>out1 st1 out2 st2.
     scancode_translator_usb_to_ps2 zero_temp (Some key_a_pressed) (Some zero_scancode)
       (scancode_translator_reset fresh_translator) = Inr (TRANSLATOR_OK, Some out1, st1) \<and>
     sc_bytes out1 = [0x1C] \<and>
     scancode_translator_usb_to_ps2 zero_temp (Some zero_keyboard_data) (Some out1) st1 =
       Inr (TRANSLATOR_OK, Some out2, st2) \<and>
     sc_bytes out2 = [0xF0, 0x1C])"
  using press_release_a [OF wf_zero_temp wf_zero_temp wf_zero_scancode, of fresh_translator]
    wf_zero_temp wf_zero_scancode
  by simp

text \<open>
  C9. From the all-released translator state, translating the snapshot with only
  Right-Alt held returns \<open>TRANSLATOR_OK\<close> and the extended make sequence
  \<open>0xE0, 0x11\<close>; translating the all-released snapshot next returns
  \<open>TRANSLATOR_OK\<close> and the extended break sequence \<open>0xE0, 0xF0, 0x11\<close>.
\<close>

theorem press_release_right_alt:
  assumes "wf_temp temp0" and "wf_temp temp1" and "wf_scancode out"
  shows "\<exists>out1 st1 out2 st2.
     scancode_translator_usb_to_ps2 temp0 (Some right_alt_pressed) (Some out)
       (scancode_translator_reset st) = Inr (TRANSLATOR_OK, Some out1, st1) \<and>
     sc_bytes out1 = [0xE0, 0x11] \<and>
     scancode_translator_usb_to_ps2 temp1 (Some zero_keyboard_data) (Some out1) st1 =
       Inr (TRANSLATOR_OK, Some out2, st2) \<and>
     sc_bytes out2 = [0xE0, 0xF0, 0x11]"
proof -
  obtain a b c d where out: "data out = [a, b, c, d]"
    using assms(3) by (rule wf_scancodeE)
  have "wf_scancode (temp0 ! 0)" and "wf_scancode (temp1 ! 0)"
    using assms by (simp_all add: wf_temp_slot MAX_TRANSLATION_BUFFER_def)
  then obtain a0 b0 c0 d0 a1 b1 c1 d1
    where t0: "data (temp0 ! 0) = [a0, b0, c0, d0]" and t1: "data (temp1 ! 0) = [a1, b1, c1, d1]"
    by (metis wf_scancodeE)
  have len: "length temp0 = 8" "length temp1 = 8"
    using assms wf_temp_length by (simp_all add: MAX_TRANSLATION_BUFFER_def)
  show ?thesis
    using out t0 t1 len
    by (cases st)
      (simp add: translate_defs right_alt_pressed_def Let_def sc_bytes_def upt_small)
qed

theorem press_release_right_alt_witness:
  "wf_temp zero_temp \<and> wf_scancode zero_scancode \<and>
   (\<exists>out1 st1 out2 st2.
     scancode_translator_usb_to_ps2 zero_temp (Some right_alt_pressed) (Some zero_scancode)
       (scancode_translator_reset fresh_translator) = Inr (TRANSLATOR_OK, Some out1, st1) \<and>
     sc_bytes out1 = [0xE0, 0x11] \<and>
     scancode_translator_usb_to_ps2 zero_temp (Some zero_keyboard_data) (Some out1) st1 =
       Inr (TRANSLATOR_OK, Some out2, st2) \<and>
     sc_bytes out2 = [0xE0, 0xF0, 0x11])"
  using press_release_right_alt [OF wf_zero_temp wf_zero_temp wf_zero_scancode,
      of fresh_translator]
    wf_zero_temp wf_zero_scancode
  by simp

lemma scancode_translator_init_reset:
  "snd (scancode_translator_init st) = scancode_translator_reset st"
  by (simp add: scancode_translator_init_def scancode_translator_reset_def)

subsection \<open>The same snapshot twice\<close>

lemma is_key_in_array_self:
  "i < unat n \<Longrightarrow> is_key_in_array (arr ! i) arr n"
  by (auto simp: is_key_in_array_def list_ex_iff)

lemma release_loop_same:
  "\<forall>i\<in>set is. i < unat (key_count kd) \<Longrightarrow>
   release_loop kd kd base ic is fr = Inr (TRANSLATOR_OK, fr)"
  by (induction "is") (simp_all add: is_key_in_array_self)

lemma press_loop_same:
  "\<forall>i\<in>set is. i < unat (key_count kd) \<Longrightarrow>
   press_loop kd kd base ic is fr = Inr (TRANSLATOR_OK, fr)"
  by (induction "is") (simp_all add: is_key_in_array_self)

lemma translate_regular_keys_same:
  "translate_regular_keys kd kd base fr = Inr (TRANSLATOR_OK, fr)"
  by (simp add: translate_regular_keys_def seq_def release_loop_same press_loop_same)

lemma translate_modifier_keys_same:
  "unat (scancode_count fr) \<le> MAX_TRANSLATION_BUFFER \<Longrightarrow>
   translate_modifier_keys m m base fr = Inr (TRANSLATOR_OK, fr)"
  by (simp add: translate_modifier_keys_def modifier_block_def seq_def)

lemma translate_same_snapshot:
  assumes "translator_status st = TRANSLATOR_READY" and "last_usb_state st = cur"
  shows "scancode_translator_usb_to_ps2 temp (Some cur) (Some out) st =
           Inr (TRANSLATOR_OK, Some (out\<lparr>length_sc := 0\<rparr>), st)"
proof -
  have "st\<lparr>last_usb_state := cur\<rparr> = st"
    using assms(2) by (cases st) simp
  then show ?thesis
    using assms
    by (simp add: scancode_translator_usb_to_ps2_def translate_modifier_keys_same
        translate_regular_keys_same seq_def)
qed

lemma translate_ok_state:
  assumes "scancode_translator_usb_to_ps2 temp ud p st = Inr (TRANSLATOR_OK, p', st')"
  shows "\<exists>cur. ud = Some cur \<and> translator_status st = TRANSLATOR_READY \<and>
           st' = st\<lparr>last_usb_state := cur\<rparr>"
  using assms
  by (auto simp: scancode_translator_usb_to_ps2_def seq_def
      split: option.splits sum.splits prod.splits if_splits)

lemma translate_error_keeps_state:
  assumes "scancode_translator_usb_to_ps2 temp ud p st = Inr (TRANSLATOR_ERROR, p', st')"
  shows "p' = p \<and> st' = st"
  using assms
  by (auto simp: scancode_translator_usb_to_ps2_def seq_def
      split: option.splits sum.splits prod.splits if_splits)

text \<open>
  C6, as the code has it. Whenever a call of the translation on a snapshot \<open>cur\<close>
  (of at most six keys, as the stored one) returns \<open>TRANSLATOR_OK\<close>, the stored last
  snapshot is \<open>cur\<close> afterwards, whatever was generated, and a second call on the same
  \<open>cur\<close> returns \<open>TRANSLATOR_OK\<close> with a sequence of length 0 and leaves the state as
  it is.
\<close>

theorem translate_twice:
  assumes "wf_keyboard_data cur" and "wf_keyboard_data (last_usb_state st)"
    and "scancode_translator_usb_to_ps2 temp0 (Some cur) (Some out) st =
           Inr (TRANSLATOR_OK, out1, st1)"
  shows "last_usb_state st1 = cur \<and>
         scancode_translator_usb_to_ps2 temp1 (Some cur) (Some out') st1 =
           Inr (TRANSLATOR_OK, Some (out'\<lparr>length_sc := 0\<rparr>), st1)"
proof -
  from translate_ok_state [OF assms(3)]
  have ready: "translator_status st = TRANSLATOR_READY"
    and st1: "st1 = st\<lparr>last_usb_state := cur\<rparr>"
    by simp_all
  have "translator_status st1 = TRANSLATOR_READY" and last: "last_usb_state st1 = cur"
    using ready st1 by simp_all
  then show ?thesis
    by (simp add: translate_same_snapshot)
qed

lemma translate_key_a_first:
  "scancode_translator_usb_to_ps2 zero_temp (Some key_a_pressed) (Some zero_scancode)
     (scancode_translator_reset fresh_translator) =
   Inr (TRANSLATOR_OK, Some \<lparr>data = [0x1C, 0, 0, 0], length_sc = 1\<rparr>,
        translator_after key_a_pressed)"
  by (simp add: key_a_pressed_def fresh_translator_def translator_after_def translate_defs
      zero_temp_defs find_keys upt_small Let_def)

theorem translate_twice_witness:
  "last_usb_state (translator_after key_a_pressed) = key_a_pressed \<and>
   scancode_translator_usb_to_ps2 zero_temp (Some key_a_pressed)
     (Some \<lparr>data = [0x1C, 0, 0, 0], length_sc = 1\<rparr>) (translator_after key_a_pressed) =
   Inr (TRANSLATOR_OK, Some \<lparr>data = [0x1C, 0, 0, 0], length_sc = 0\<rparr>,
        translator_after key_a_pressed)"
proof -
  have cur: "wf_keyboard_data key_a_pressed"
    by (simp add: wf_keyboard_data_def key_a_pressed_def USB_HID_MAX_KEYS_def)
  have old: "wf_keyboard_data (last_usb_state (scancode_translator_reset fresh_translator))"
    by (simp add: wf_keyboard_data_def scancode_translator_reset_def zero_keyboard_data_def)
  show ?thesis
    using translate_twice [OF cur old translate_key_a_first, of zero_temp
        "\<lparr>data = [0x1C, 0, 0, 0], length_sc = 1\<rparr>"]
    by simp
qed

lemma reach_abcde:
  "\<exists>out1. scancode_translator_usb_to_ps2 zero_temp (Some keys_abcde) (Some zero_scancode)
     (scancode_translator_reset fresh_translator) =
   Inr (TRANSLATOR_OK, out1, translator_after keys_abcde)"
  by (simp add: keys_abcde_def fresh_translator_def
      translator_after_def translate_defs zero_temp_defs find_keys upt_small
      Let_def)

text \<open>
  C6 as stated fails. With A, B, C, D, E held in the last translated snapshot (a state
  one successful call from the all-released state reaches) and F, G, H, I, J held in
  the current one, the diff has ten events: the call returns \<open>TRANSLATOR_ERROR\<close> and
  keeps the state, so the repeated call is the same call and yields no empty sequence.
\<close>

theorem overflow_twice_counterexample:
  "scancode_translator_usb_to_ps2 zero_temp (Some keys_fghij) (Some zero_scancode)
     (translator_after keys_abcde) =
   Inr (TRANSLATOR_ERROR, Some zero_scancode, translator_after keys_abcde) \<and>
   (\<nexists>out2 st2.
      scancode_translator_usb_to_ps2 zero_temp (Some keys_fghij) (Some zero_scancode)
        (translator_after keys_abcde) = Inr (TRANSLATOR_OK, out2, st2))"
  by (simp add: keys_abcde_def
      keys_fghij_def translator_after_def translate_defs zero_temp_defs find_keys upt_small
      Let_def)

subsection \<open>The bound of eight events\<close>

text \<open>
  C2 at the input where it fails. With A, B, C, D held in the last translated snapshot
  and E, F, G, H held in the current one, the diff generates eight events, four
  releases and four presses, each stored inside the array; the call returns
  \<open>TRANSLATOR_ERROR\<close> and leaves the caller's structure and the state as they were.
\<close>

theorem eight_events_rejected:
  "spec_event_count keys_abcd keys_efgh = 8 \<and>
   scancode_translator_usb_to_ps2 zero_temp (Some keys_efgh) (Some zero_scancode)
     (translator_after keys_abcd) =
   Inr (TRANSLATOR_ERROR, Some zero_scancode, translator_after keys_abcd)"
  by (simp add: spec_event_count_def pressed_keys_def handled_modifiers_def keys_abcd_def
      keys_efgh_def translator_after_def translate_defs zero_temp_defs find_keys upt_small
      Let_def)

text \<open>
  C3 at the input where it fails. From the all-released state, a snapshot with
  Left-Ctrl, Left-Shift, Left-Alt and Right-Ctrl held and key A pressed generates four
  modifier events in slots 0 to 3 and then stores the make code of A at
  \<open>temp_scancodes[4 + 4]\<close>, outside the eight-entry array.
\<close>

theorem write_past_temp_scancodes:
  "scancode_translator_usb_to_ps2 zero_temp (Some four_modifiers_and_a) (Some zero_scancode)
     (scancode_translator_reset fresh_translator) = Inl (OutOfBounds 8)"
  by (simp add: four_modifiers_and_a_def fresh_translator_def translate_defs zero_temp_defs
      find_keys upt_small Let_def)

end
